theory Spec2Isabelle
  imports Main "HOL-Library.Word" "HOL-Library.Signed_Division"
begin

section \<open>The participant ledger chaincode (testcc.go)\<close>

text \<open>
  The chaincode keeps one JSON document per participant in the ledger's key-value state
  and offers three invocations: \<open>initParty\<close>, \<open>readParty\<close> and \<open>transferPoints\<close>.
  Every function of the source takes the stub and the argument list and returns a
  \<open>pb.Response\<close>; the model returns the response together with the stub after the
  writes the call has made.
\<close>

subsection \<open>Data\<close>

text \<open>Go's \<open>int\<close> on the 64-bit platforms the peer runs on; \<open>[]byte\<close> as a byte list.\<close>

type_synonym go_int = "64 word"
type_synonym bytes = string

text \<open>\<open>type participant struct\<close>, field for field.\<close>

record participant =
  ObjectType :: string
  Name :: string
  Category :: string
  Balance :: go_int

text \<open>
  \<open>pb.Response\<close> as built by \<open>shim.Success(payload)\<close> and \<open>shim.Error(msg)\<close>;
  a \<open>nil\<close> payload is \<open>None\<close>.
\<close>

datatype response = Success "bytes option" | Error string

subsection \<open>Library functions the chaincode calls\<close>

text \<open>
  \<open>strconv.Atoi\<close> is \<open>ParseInt(s, 10, 0)\<close>: an optional sign, then decimal digits.
  On a syntax error it returns 0 with the error; on a well-formed number outside the range
  of \<open>int\<close> it returns the nearest bound with a range error. \<open>ParseUint\<close> reads the
  digits from the left and reports the first problem it meets.
\<close>

datatype num_error = ErrSyntax | ErrRange

definition maxUint64 :: nat where
  "maxUint64 = 2 ^ 64 - 1"

definition is_digit :: "char \<Rightarrow> bool" where
  "is_digit c \<longleftrightarrow> 48 \<le> (of_char c :: nat) \<and> (of_char c :: nat) \<le> 57"

definition digit_val :: "char \<Rightarrow> nat" where
  "digit_val c = of_char c - 48"

fun ParseUint_loop :: "nat \<Rightarrow> string \<Rightarrow> nat \<times> num_error option" where
  "ParseUint_loop n [] = (n, None)"
| "ParseUint_loop n (c # cs) =
     (if \<not> is_digit c then (0, Some ErrSyntax)
      else if n \<ge> maxUint64 div 10 + 1 then (maxUint64, Some ErrRange)
      else let n1 = n * 10 + digit_val c in
        if n1 > maxUint64 then (maxUint64, Some ErrRange)
        else ParseUint_loop n1 cs)"

definition ParseUint :: "string \<Rightarrow> nat \<times> num_error option" where
  "ParseUint s = (if s = [] then (0, Some ErrSyntax) else ParseUint_loop 0 s)"

definition ParseInt :: "string \<Rightarrow> int \<times> num_error option" where
  "ParseInt s =
     (if s = [] then (0, Some ErrSyntax)
      else
        let neg = (hd s = CHR ''-'');
            s1 = (if hd s = CHR ''+'' \<or> hd s = CHR ''-'' then tl s else s);
            (un, err) = ParseUint s1
        in if err \<noteq> None \<and> err \<noteq> Some ErrRange then (0, err)
           else if \<not> neg \<and> un \<ge> 2 ^ 63 then (2 ^ 63 - 1, Some ErrRange)
           else if neg \<and> un > 2 ^ 63 then (- (2 ^ 63), Some ErrRange)
           else (if neg then - int un else int un, None))"

definition Atoi :: "string \<Rightarrow> go_int \<times> num_error option" where
  "Atoi s = (let (i64, err) = ParseInt s in (word_of_int i64, err))"

text \<open>
  \<open>strings.ToLower\<close> has two paths. On a string of ASCII bytes it moves the letters
  \<open>A\<close> to \<open>Z\<close> to \<open>a\<close> to \<open>z\<close> and leaves every other byte; that path is
  \<open>ascii_ToLower\<close>. On any other string it lowers whole runes by the Unicode tables and
  replaces invalid UTF-8. The model takes \<open>strings.ToLower\<close> as a parameter (below);
  \<open>ascii_ToLower\<close> stands in for it in the examples, whose categories are ASCII.
\<close>

definition is_upper :: "char \<Rightarrow> bool" where
  "is_upper c \<longleftrightarrow> 65 \<le> (of_char c :: nat) \<and> (of_char c :: nat) \<le> 90"

definition toLower_byte :: "char \<Rightarrow> char" where
  "toLower_byte c = (if is_upper c then char_of (of_char c + 32 :: nat) else c)"

definition ascii_ToLower :: "string \<Rightarrow> string" where
  "ascii_ToLower s = map toLower_byte s"

text \<open>
  Go's \<open>/\<close> on \<open>int\<close> truncates towards zero; \<open>*\<close>, \<open>+\<close> and \<open>-\<close> wrap around, as the
  word operations do; \<open><\<close> compares the signed values.
\<close>

definition go_quo :: "go_int \<Rightarrow> go_int \<Rightarrow> go_int" where
  "go_quo a b = word_of_int (sint a sdiv sint b)"

definition go_less :: "go_int \<Rightarrow> go_int \<Rightarrow> bool" where
  "go_less a b \<longleftrightarrow> sint a < sint b"

text \<open>
  The library functions that work on text are parameters of the model:
  \<open>json.Marshal\<close> of a participant (it cannot fail on a struct of strings and an int),
  \<open>json.Unmarshal\<close> into an empty participant, which returns the filled struct or the
  error's text, and \<open>strings.ToLower\<close>. The chaincode only passes bytes and strings through
  them; what a property needs of them is a hypothesis of that property.
\<close>

record library =
  Marshal :: "participant \<Rightarrow> bytes"
  Unmarshal :: "bytes \<Rightarrow> string + participant"
  ToLower :: "string \<Rightarrow> string"

text \<open>
  \<open>shim.ChaincodeStubInterface\<close>: the ledger state, and for each key whether the peer
  answers a read or a write of that key with an error (and with which text).
  \<open>GetState\<close> returns \<open>nil\<close> bytes (\<open>None\<close>) for a key that holds nothing.
\<close>

record stub =
  ledger :: "string \<rightharpoonup> bytes"
  get_fault :: "string \<Rightarrow> string option"
  put_fault :: "string \<Rightarrow> string option"

definition GetState :: "stub \<Rightarrow> string \<Rightarrow> string + bytes option" where
  "GetState st key = (case get_fault st key of Some e \<Rightarrow> Inl e | None \<Rightarrow> Inr (ledger st key))"

definition PutState :: "stub \<Rightarrow> string \<Rightarrow> bytes \<Rightarrow> string + stub" where
  "PutState st key v =
     (case put_fault st key of
        Some e \<Rightarrow> Inl e
      | None \<Rightarrow> Inr (st\<lparr>ledger := (ledger st)(key \<mapsto> v)\<rparr>))"

text \<open>A \<open>nil\<close> byte slice passed to \<open>json.Unmarshal\<close> is the empty input.\<close>

definition slice :: "bytes option \<Rightarrow> bytes" where
  "slice b = (case b of None \<Rightarrow> [] | Some v \<Rightarrow> v)"

subsection \<open>initParty\<close>

definition initParty :: "library \<Rightarrow> stub \<Rightarrow> string list \<Rightarrow> response \<times> stub" where
  \<open>initParty J st args =
     (if length args \<noteq> 3 then
        (Error ''Incorrect number of arguments. Expecting 3 (Name, Type, Balance)'', st)
      else if length (args ! 0) \<le> 0 then (Error ''1st argument must be a non-empty string'', st)
      else if length (args ! 1) \<le> 0 then (Error ''2nd argument must be a non-empty string'', st)
      else if length (args ! 2) \<le> 0 then (Error ''3rd argument must be a non-empty string'', st)
      else
        let partyName = args ! 0;
            category = ToLower J (args ! 1);
            (balance, err) = Atoi (args ! 2)
        in if err \<noteq> None then (Error ''3rd argument must be a numeric string'', st)
           else
             (case GetState st partyName of
                Inl e \<Rightarrow> (Error (''Failed to get Participant: '' @ e), st)
              | Inr (Some partyAsBytes) \<Rightarrow>
                  (Error (''This Participant already exists: '' @ partyName), st)
              | Inr None \<Rightarrow>
                  let objectType = ''participant'';
                      party = \<lparr>ObjectType = objectType, Name = partyName,
                               Category = category, Balance = balance\<rparr>;
                      partyJSONasBytes = Marshal J party
                  in (case PutState st partyName partyJSONasBytes of
                        Inl e \<Rightarrow> (Error e, st)
                      | Inr st' \<Rightarrow> (Success None, st'))))\<close>

subsection \<open>readParty\<close>

definition readParty :: "library \<Rightarrow> stub \<Rightarrow> string list \<Rightarrow> response \<times> stub" where
  \<open>readParty J st args =
     (if length args \<noteq> 1 then
        (Error ''Incorrect number of arguments. Expecting name of the Participant to query'', st)
      else
        let name = args ! 0 in
        (case GetState st name of
           Inl e \<Rightarrow> (Error (''{"Error":"Failed to get state for '' @ name @ ''"}''), st)
         | Inr None \<Rightarrow> (Error (''{"Error":"particpant does not exist: '' @ name @ ''"}''), st)
         | Inr (Some valAsbytes) \<Rightarrow> (Success (Some valAsbytes), st)))\<close>

subsection \<open>transferPoints\<close>

text \<open>
  The three reads, the three decodings, the checks and the writes, in the order of the
  source. The tests after the reads of the receiver and of the tax authority look at
  \<open>senderAsBytes\<close>, as the source does.
\<close>

definition transferPoints :: "library \<Rightarrow> stub \<Rightarrow> string list \<Rightarrow> response \<times> stub" where
  \<open>transferPoints J st args =
     (if length args < 3 then (Error ''Incorrect number of arguments. Expecting 3'', st)
      else
        let sender = args ! 0;
            receiver = args ! 1;
            points = args ! 2;
            taxAuth = ''TaxAuth'';
            pointsAsInt = fst (Atoi points)
        in
        (case GetState st sender of
           Inl e \<Rightarrow> (Error (''Failed to get Sender:'' @ e), st)
         | Inr senderAsBytes \<Rightarrow>
        if senderAsBytes = None then (Error ''Sender does not exist'', st)
        else
        (case GetState st receiver of
           Inl e \<Rightarrow> (Error (''Failed to get Receiver:'' @ e), st)
         | Inr receiverAsBytes \<Rightarrow>
        if senderAsBytes = None then (Error ''Receiver does not exist'', st)
        else
        (case GetState st taxAuth of
           Inl e \<Rightarrow> (Error (''Failed to get Tax_Authority:'' @ e), st)
         | Inr taxAuthAsBytes \<Rightarrow>
        if senderAsBytes = None then (Error ''Tax Authority does not exist'', st)
        else
        (case Unmarshal J (slice taxAuthAsBytes) of
           Inl e \<Rightarrow> (Error e, st)
         | Inr taxAuthority \<Rightarrow>
        (case Unmarshal J (slice senderAsBytes) of
           Inl e \<Rightarrow> (Error e, st)
         | Inr senderTransfer \<Rightarrow>
        (case Unmarshal J (slice receiverAsBytes) of
           Inl e \<Rightarrow> (Error e, st)
         | Inr receiverTranfer \<Rightarrow>
        if Category senderTransfer = ''TaxAuth'' then
          (Error ''Tax Authority cann't Participate in any transaction'', st)
        else if Category receiverTranfer = ''TaxAuth'' then
          (Error ''Tax Authority cann't Participate in any transaction'', st)
        else if go_less (Balance senderTransfer) pointsAsInt then
          (Error ''There is no enough balance in the sender account'', st)
        else
          let senderTransfer1 =
                senderTransfer\<lparr>Balance := Balance senderTransfer - pointsAsInt\<rparr>;
              (receiverTranfer1, taxWritten) =
                (if Category receiverTranfer = ''TaxExempt'' then
                   (receiverTranfer\<lparr>Balance := Balance receiverTranfer + pointsAsInt\<rparr>,
                    Inr st)
                 else
                   let taxPoints = go_quo (pointsAsInt * 2) 100;
                       pointsAfterTax = pointsAsInt - taxPoints;
                       receiverTranfer' =
                         receiverTranfer\<lparr>Balance := Balance receiverTranfer + pointsAfterTax\<rparr>;
                       taxAuthority' =
                         taxAuthority\<lparr>Balance := Balance taxAuthority + taxPoints\<rparr>;
                       authorityJSONasBytes = Marshal J taxAuthority'
                   in (receiverTranfer', PutState st taxAuth authorityJSONasBytes))
          in
          (case taxWritten of
             Inl e \<Rightarrow> (Error e, st)
           | Inr st1 \<Rightarrow>
          (case PutState st1 sender (Marshal J senderTransfer1) of
             Inl e \<Rightarrow> (Error e, st1)
           | Inr st2 \<Rightarrow>
          (case PutState st2 receiver (Marshal J receiverTranfer1) of
             Inl e \<Rightarrow> (Error e, st2)
           | Inr st3 \<Rightarrow> (Success None, st3)))))))))))\<close>

subsection \<open>Two concrete instances\<close>

text \<open>
  Two instances of the library run the chaincode in the examples. The first, \<open>ref_codec\<close>,
  writes the participant as a JSON object in the layout the struct tags give,
  \<open>{"docType":...,"name":...,"category":...,"balance":...}\<close>, the balance in decimal and
  the strings with only \<open>"\<close> and the backslash escaped. It is reversible on every record,
  and it is \<open>json.Marshal\<close> on the records whose strings are plain: printable ASCII
  other than \<open><\<close>, \<open>>\<close> and \<open>&\<close> (lemma \<open>json_Marshal_plain\<close>). Decoding reads that
  layout back; empty input is the error \<open>encoding/json\<close> reports for it.
\<close>

definition digit_char :: "nat \<Rightarrow> char" where
  "digit_char d = char_of (48 + d)"

function digits_of :: "nat \<Rightarrow> string" where
  "digits_of n = (if n < 10 then [digit_char n] else digits_of (n div 10) @ [digit_char (n mod 10)])"
  by pat_completeness auto
termination
  by (relation "measure id") auto

declare digits_of.simps [simp del]

definition Itoa :: "int \<Rightarrow> string" where
  "Itoa i = (if i < 0 then CHR ''-'' # digits_of (nat (- i)) else digits_of (nat i))"

fun escape :: "string \<Rightarrow> string" where
  "escape [] = []"
| "escape (c # cs) =
     (if c = CHR 0x22 \<or> c = CHR 0x5C then CHR 0x5C # c # escape cs else c # escape cs)"

fun unquote :: "string \<Rightarrow> (string \<times> string) option" where
  "unquote [] = None"
| "unquote (c # cs) =
     (if c = CHR 0x22 then Some ([], cs)
      else if c = CHR 0x5C then
        (case cs of
           [] \<Rightarrow> None
         | d # ds \<Rightarrow> map_option (\<lambda>(s, r). (d # s, r)) (unquote ds))
      else map_option (\<lambda>(s, r). (c # s, r)) (unquote cs))"

fun expect :: "string \<Rightarrow> string \<Rightarrow> string option" where
  "expect [] s = Some s"
| "expect (c # cs) [] = None"
| "expect (c # cs) (d # ds) = (if c = d then expect cs ds else None)"

definition ref_Marshal :: "participant \<Rightarrow> bytes" where
  \<open>ref_Marshal p =
     ''{"docType":"'' @ escape (ObjectType p) @
     ''","name":"'' @ escape (Name p) @
     ''","category":"'' @ escape (Category p) @
     ''","balance":'' @ Itoa (sint (Balance p)) @ ''}''\<close>

definition ref_parse :: "bytes \<Rightarrow> participant option" where
  \<open>ref_parse s =
     (case expect ''{"docType":"'' s of None \<Rightarrow> None | Some s1 \<Rightarrow>
      case unquote s1 of None \<Rightarrow> None | Some (objectType, s2) \<Rightarrow>
      case expect '',"name":"'' s2 of None \<Rightarrow> None | Some s3 \<Rightarrow>
      case unquote s3 of None \<Rightarrow> None | Some (name, s4) \<Rightarrow>
      case expect '',"category":"'' s4 of None \<Rightarrow> None | Some s5 \<Rightarrow>
      case unquote s5 of None \<Rightarrow> None | Some (category, s6) \<Rightarrow>
      case expect '',"balance":'' s6 of None \<Rightarrow> None | Some s7 \<Rightarrow>
      if s7 \<noteq> [] \<and> last s7 = CHR ''}'' then
        (case Atoi (butlast s7) of
           (balance, None) \<Rightarrow>
             Some \<lparr>ObjectType = objectType, Name = name, Category = category, Balance = balance\<rparr>
         | (balance, Some e) \<Rightarrow> None)
      else None)\<close>

definition ref_Unmarshal :: "bytes \<Rightarrow> string + participant" where
  "ref_Unmarshal s =
     (if s = [] then Inl ''unexpected end of JSON input''
      else case ref_parse s of
             None \<Rightarrow> Inl ''json: cannot unmarshal input into Go value of type main.participant''
           | Some p \<Rightarrow> Inr p)"

definition ref_codec :: library where
  "ref_codec =
     \<lparr>Marshal = ref_Marshal, Unmarshal = ref_Unmarshal, ToLower = ascii_ToLower\<rparr>"

text \<open>
  The second, \<open>json_codec\<close>, encodes strings as \<open>json.Marshal\<close> does on every input:
  \<open>"\<close> and the backslash escaped, \<open>\n\<close>, \<open>\r\<close>, \<open>\t\<close> in their short forms, the other
  control characters and \<open><\<close>, \<open>>\<close>, \<open>&\<close> as \<open>\u00XX\<close>, U+2028 and U+2029 as
  \<open>\u2028\<close> and \<open>\u2029\<close>, every byte that does not start a well-formed UTF-8 sequence
  (\<open>utf8.DecodeRuneInString\<close> returns \<open>RuneError\<close> of width 1) as \<open>\ufffd\<close>, and all other
  bytes unchanged. Its decoder reads the same layout and undoes these escapes (surrogate
  escapes, which the encoder never writes, are outside it).
\<close>

definition hex_digit :: "nat \<Rightarrow> char" where
  "hex_digit d = ''0123456789abcdef'' ! d"

definition unicode_escape :: "nat \<Rightarrow> string" where
  "unicode_escape n =
     [CHR 0x5C, CHR ''u'', hex_digit (n div 4096), hex_digit (n div 256 mod 16),
      hex_digit (n div 16 mod 16), hex_digit (n mod 16)]"

definition continuation :: "char \<Rightarrow> bool" where
  "continuation c \<longleftrightarrow> 128 \<le> (of_char c :: nat) \<and> (of_char c :: nat) \<le> 191"

definition utf8_width :: "string \<Rightarrow> nat" where
  "utf8_width s =
     (case s of
        [] \<Rightarrow> 0
      | b0 # r \<Rightarrow>
          let x = (of_char b0 :: nat) in
          if 194 \<le> x \<and> x \<le> 223 then
            (case r of b1 # r1 \<Rightarrow> if continuation b1 then 2 else 0 | [] \<Rightarrow> 0)
          else if 224 \<le> x \<and> x \<le> 239 then
            (case r of
               b1 # b2 # r2 \<Rightarrow>
                 if (if x = 224 then 160 else 128) \<le> (of_char b1 :: nat) \<and>
                    (of_char b1 :: nat) \<le> (if x = 237 then 159 else 191) \<and> continuation b2
                 then 3 else 0
             | _ \<Rightarrow> 0)
          else if 240 \<le> x \<and> x \<le> 244 then
            (case r of
               b1 # b2 # b3 # r3 \<Rightarrow>
                 if (if x = 240 then 144 else 128) \<le> (of_char b1 :: nat) \<and>
                    (of_char b1 :: nat) \<le> (if x = 244 then 143 else 191) \<and>
                    continuation b2 \<and> continuation b3
                 then 4 else 0
             | _ \<Rightarrow> 0)
          else 0)"

definition escape_ascii :: "char \<Rightarrow> string" where
  "escape_ascii c =
     (if c = CHR 0x22 \<or> c = CHR 0x5C then [CHR 0x5C, c]
      else if c = CHR 0x0A then [CHR 0x5C, CHR ''n'']
      else if c = CHR 0x0D then [CHR 0x5C, CHR ''r'']
      else if c = CHR 0x09 then [CHR 0x5C, CHR ''t'']
      else if (of_char c :: nat) < 32 \<or> c = CHR ''<'' \<or> c = CHR ''>'' \<or> c = CHR ''&''
        then unicode_escape (of_char c)
      else [c])"

function json_escape :: "string \<Rightarrow> string" where
  "json_escape [] = []"
| "json_escape (c # cs) =
     (if (of_char c :: nat) < 128 then escape_ascii c @ json_escape cs
      else
        let w = utf8_width (c # cs) in
        if w = 0 then unicode_escape 65533 @ json_escape cs
        else if take w (c # cs) = [CHR 0xE2, CHR 0x80, CHR 0xA8]
          then unicode_escape 8232 @ json_escape (drop w (c # cs))
        else if take w (c # cs) = [CHR 0xE2, CHR 0x80, CHR 0xA9]
          then unicode_escape 8233 @ json_escape (drop w (c # cs))
        else take w (c # cs) @ json_escape (drop w (c # cs)))"
  by pat_completeness auto
termination
  by (relation "measure length") auto

declare json_escape.simps [simp del]


definition hex_value :: "char \<Rightarrow> nat option" where
  "hex_value c =
     (let x = (of_char c :: nat) in
      if 48 \<le> x \<and> x \<le> 57 then Some (x - 48)
      else if 97 \<le> x \<and> x \<le> 102 then Some (x - 87)
      else if 65 \<le> x \<and> x \<le> 70 then Some (x - 55)
      else None)"

definition utf8_encode :: "nat \<Rightarrow> string" where
  "utf8_encode n =
     (if n < 128 then [char_of n]
      else if n < 2048 then [char_of (192 + n div 64), char_of (128 + n mod 64)]
      else [char_of (224 + n div 4096), char_of (128 + n div 64 mod 64),
            char_of (128 + n mod 64)])"

definition unescape :: "char \<Rightarrow> char option" where
  "unescape d =
     (if d = CHR 0x22 \<or> d = CHR 0x5C \<or> d = CHR ''/'' then Some d
      else if d = CHR ''n'' then Some (CHR 0x0A)
      else if d = CHR ''r'' then Some (CHR 0x0D)
      else if d = CHR ''t'' then Some (CHR 0x09)
      else if d = CHR ''b'' then Some (CHR 0x08)
      else if d = CHR ''f'' then Some (CHR 0x0C)
      else None)"

definition code_point :: "char \<Rightarrow> char \<Rightarrow> char \<Rightarrow> char \<Rightarrow> nat option" where
  "code_point h1 h2 h3 h4 =
     (case hex_value h1 of None \<Rightarrow> None | Some a \<Rightarrow>
      case hex_value h2 of None \<Rightarrow> None | Some b \<Rightarrow>
      case hex_value h3 of None \<Rightarrow> None | Some c \<Rightarrow>
      case hex_value h4 of None \<Rightarrow> None | Some d \<Rightarrow>
        let n = ((a * 16 + b) * 16 + c) * 16 + d
        in if 55296 \<le> n \<and> n < 57344 then None else Some n)"

fun json_unquote :: "string \<Rightarrow> (string \<times> string) option" where
  "json_unquote [] = None"
| "json_unquote (c # cs) =
     (if c = CHR 0x22 then Some ([], cs)
      else if c = CHR 0x5C then
        (case cs of
           [] \<Rightarrow> None
         | d # ds \<Rightarrow>
             if d = CHR ''u'' then
               (case ds of
                  h1 # h2 # h3 # h4 # r \<Rightarrow>
                    (case code_point h1 h2 h3 h4 of
                       None \<Rightarrow> None
                     | Some n \<Rightarrow>
                         map_option (\<lambda>(s, r'). (utf8_encode n @ s, r')) (json_unquote r))
                | _ \<Rightarrow> None)
             else
               (case unescape d of
                  None \<Rightarrow> None
                | Some x \<Rightarrow> map_option (\<lambda>(s, r). (x # s, r)) (json_unquote ds)))
      else map_option (\<lambda>(s, r). (c # s, r)) (json_unquote cs))"

definition json_Marshal :: "participant \<Rightarrow> bytes" where
  \<open>json_Marshal p =
     ''{"docType":"'' @ json_escape (ObjectType p) @
     ''","name":"'' @ json_escape (Name p) @
     ''","category":"'' @ json_escape (Category p) @
     ''","balance":'' @ Itoa (sint (Balance p)) @ ''}''\<close>

definition json_parse :: "bytes \<Rightarrow> participant option" where
  \<open>json_parse s =
     (case expect ''{"docType":"'' s of None \<Rightarrow> None | Some s1 \<Rightarrow>
      case json_unquote s1 of None \<Rightarrow> None | Some (objectType, s2) \<Rightarrow>
      case expect '',"name":"'' s2 of None \<Rightarrow> None | Some s3 \<Rightarrow>
      case json_unquote s3 of None \<Rightarrow> None | Some (name, s4) \<Rightarrow>
      case expect '',"category":"'' s4 of None \<Rightarrow> None | Some s5 \<Rightarrow>
      case json_unquote s5 of None \<Rightarrow> None | Some (category, s6) \<Rightarrow>
      case expect '',"balance":'' s6 of None \<Rightarrow> None | Some s7 \<Rightarrow>
      if s7 \<noteq> [] \<and> last s7 = CHR ''}'' then
        (case Atoi (butlast s7) of
           (balance, None) \<Rightarrow>
             Some \<lparr>ObjectType = objectType, Name = name, Category = category, Balance = balance\<rparr>
         | (balance, Some e) \<Rightarrow> None)
      else None)\<close>

definition json_Unmarshal :: "bytes \<Rightarrow> string + participant" where
  "json_Unmarshal s =
     (if s = [] then Inl ''unexpected end of JSON input''
      else case json_parse s of
             None \<Rightarrow> Inl ''json: cannot unmarshal input into Go value of type main.participant''
           | Some p \<Rightarrow> Inr p)"

definition json_codec :: library where
  "json_codec =
     \<lparr>Marshal = json_Marshal, Unmarshal = json_Unmarshal, ToLower = ascii_ToLower\<rparr>"

definition plain :: "string \<Rightarrow> bool" where
  "plain s \<longleftrightarrow>
     (\<forall>c \<in> set s. 32 \<le> (of_char c :: nat) \<and> (of_char c :: nat) < 128 \<and>
        c \<noteq> CHR ''<'' \<and> c \<noteq> CHR ''>'' \<and> c \<noteq> CHR ''&'')"

text \<open>
  Valid UTF-8: the string is a sequence of ASCII bytes and well-formed multi-byte
  sequences, so that \<open>json.Marshal\<close> replaces none of its bytes.
\<close>

function valid_utf8 :: "string \<Rightarrow> bool" where
  "valid_utf8 [] = True"
| "valid_utf8 (c # cs) =
     (if (of_char c :: nat) < 128 then valid_utf8 cs
      else
        let w = utf8_width (c # cs) in
        if w = 0 then False else valid_utf8 (drop w (c # cs)))"
  by pat_completeness auto
termination
  by (relation "measure length") auto

declare valid_utf8.simps [simp del]

text \<open>
  The document \<open>json.Marshal\<close> writes for the participant named by the single byte
  \<open>0xFF\<close>, of category \<open>"normal"\<close> and balance 500.
\<close>

definition replaced_name_payload :: bytes where
  \<open>replaced_name_payload =
     ''{"docType":"participant","name":"'' @ [CHR 0x5C] @
     ''ufffd","category":"normal","balance":500}''\<close>

subsection \<open>What is stored\<close>

text \<open>The record that the codec decodes from the bytes stored under a key, if any.\<close>

definition stored :: "library \<Rightarrow> stub \<Rightarrow> string \<Rightarrow> participant option" where
  "stored J st key =
     (case ledger st key of
        None \<Rightarrow> None
      | Some b \<Rightarrow> (case Unmarshal J b of Inl e \<Rightarrow> None | Inr p \<Rightarrow> Some p))"

text \<open>The balance of the record stored under a key.\<close>

definition balance_of :: "library \<Rightarrow> stub \<Rightarrow> string \<Rightarrow> go_int option" where
  "balance_of J st key = map_option Balance (stored J st key)"

text \<open>
  What the properties below may ask of the library functions. A codec is reversible when
  decoding what it encoded gives the record back; it rejects empty input when decoding no
  bytes is an error, as it is for \<open>encoding/json\<close>. \<open>strings.ToLower\<close> never returns
  an ASCII capital letter. And the codec keeps a category that \<open>strings.ToLower\<close> has
  produced: decoding an encoded record succeeds with that category unchanged.
\<close>

definition reversible :: "library \<Rightarrow> bool" where
  "reversible J \<longleftrightarrow> (\<forall>p. Unmarshal J (Marshal J p) = Inr p)"

definition rejects_empty :: "library \<Rightarrow> bool" where
  "rejects_empty J \<longleftrightarrow> (\<exists>e. Unmarshal J [] = Inl e)"

definition lowers :: "library \<Rightarrow> bool" where
  "lowers J \<longleftrightarrow> (\<forall>s c. c \<in> set (ToLower J s) \<longrightarrow> \<not> is_upper c)"

definition keeps_lowered :: "library \<Rightarrow> bool" where
  "keeps_lowered J \<longleftrightarrow>
     (\<forall>p s. Category p = ToLower J s \<longrightarrow>
        (\<exists>q. Unmarshal J (Marshal J p) = Inr q \<and> Category q = Category p))"

subsection \<open>Example ledgers\<close>

text \<open>
  A stub with nothing stored and no failing key, the struct literal of \<open>initParty\<close>, and
  the fault-free stub whose ledger holds the given records in the concrete codec.
\<close>

definition empty_stub :: stub where
  "empty_stub = \<lparr>ledger = Map.empty, get_fault = (\<lambda>k. None), put_fault = (\<lambda>k. None)\<rparr>"

definition new_participant :: "string \<Rightarrow> string \<Rightarrow> go_int \<Rightarrow> participant" where
  "new_participant name category balance =
     \<lparr>ObjectType = ''participant'', Name = name, Category = category, Balance = balance\<rparr>"

definition holding :: "(string \<times> participant) list \<Rightarrow> stub" where
  "holding kps =
     \<lparr>ledger = map_of (map (\<lambda>(k, p). (k, ref_Marshal p)) kps),
      get_fault = (\<lambda>k. None), put_fault = (\<lambda>k. None)\<rparr>"

text \<open>Alice with 500 points, Bob with none, and the tax authority's record.\<close>

definition three_parties :: stub where
  "three_parties = holding
     [(''Alice'', new_participant ''Alice'' ''normal'' 500),
      (''Bob'', new_participant ''Bob'' ''normal'' 0),
      (''TaxAuth'', new_participant ''TaxAuth'' ''taxauth'' 0)]"

text \<open>
  The tax authority created with 500 points beside Bob, and an Alice who holds the largest
  \<open>int\<close>.
\<close>

definition authority_and_bob :: stub where
  "authority_and_bob = holding
     [(''TaxAuth'', new_participant ''TaxAuth'' ''taxauth'' 500),
      (''Bob'', new_participant ''Bob'' ''normal'' 0)]"

definition rich_alice :: stub where
  "rich_alice = holding
     [(''Alice'', new_participant ''Alice'' ''normal'' 9223372036854775807),
      (''Bob'', new_participant ''Bob'' ''normal'' 0),
      (''TaxAuth'', new_participant ''TaxAuth'' ''taxauth'' 0)]"

text \<open>
  Alice and Bob without a tax authority; Alice and the tax authority; and those two with
  Carol, as the three creations \<open>("Alice", "Normal", "500")\<close>, \<open>("TaxAuth", "TaxAuth", "0")\<close>
  and \<open>("Carol", "TaxExempt", "0")\<close> leave them.
\<close>

definition alice_and_bob :: stub where
  "alice_and_bob = holding
     [(''Bob'', new_participant ''Bob'' ''normal'' 0),
      (''Alice'', new_participant ''Alice'' ''normal'' 500)]"

definition alice_and_authority :: stub where
  "alice_and_authority = holding
     [(''TaxAuth'', new_participant ''TaxAuth'' ''taxauth'' 0),
      (''Alice'', new_participant ''Alice'' ''normal'' 500)]"

definition created_three :: stub where
  "created_three = holding
     [(''Carol'', new_participant ''Carol'' ''taxexempt'' 0),
      (''TaxAuth'', new_participant ''TaxAuth'' ''taxauth'' 0),
      (''Alice'', new_participant ''Alice'' ''normal'' 500)]"

subsection \<open>Reachable ledgers\<close>

text \<open>
  The stubs that \<open>initParty\<close> and \<open>transferPoints\<close> reach from an empty ledger, whatever
  their arguments and results, together with the category each existing key was created
  with (the second argument of the successful \<open>initParty\<close>). Between two calls the store
  may start or stop failing on any key, so the ledgers that a call leaves when one of its
  writes fails after another has been made are reachable too. Every write of
  \<open>transferPoints\<close> puts under a key the record decoded from the bytes fetched for that
  key, with another balance; rule \<open>interrupted\<close> makes one such write on its own, so that
  the ledgers of a call cut short at any of its writes are reachable also when the write
  that fails is to a key the same call has already written.
\<close>

inductive reachable :: "library \<Rightarrow> stub \<Rightarrow> (string \<rightharpoonup> string) \<Rightarrow> bool" for J where
  start: "ledger st = Map.empty \<Longrightarrow> reachable J st Map.empty"
| created: "reachable J st cats \<Longrightarrow> initParty J st args = (Success pl, st') \<Longrightarrow>
     reachable J st' (cats(args ! 0 \<mapsto> args ! 1))"
| refused: "reachable J st cats \<Longrightarrow> initParty J st args = (Error msg, st') \<Longrightarrow>
     reachable J st' cats"
| transferred: "reachable J st cats \<Longrightarrow> transferPoints J st args = (res, st') \<Longrightarrow>
     reachable J st' cats"
| faults: "reachable J st cats \<Longrightarrow> reachable J (st\<lparr>get_fault := gf, put_fault := pf\<rparr>) cats"
| interrupted: "reachable J st cats \<Longrightarrow> Unmarshal J (slice (ledger st k)) = Inr q \<Longrightarrow>
     reachable J (st\<lparr>ledger := (ledger st)(k \<mapsto> Marshal J (q\<lparr>Balance := b\<rparr>))\<rparr>) cats"

text \<open>
  Every stored value is the encoding of a participant whose category is the lowercase form
  of the category its key was created with.
\<close>

definition lowercase_ledger :: "library \<Rightarrow> stub \<Rightarrow> (string \<rightharpoonup> string) \<Rightarrow> bool" where
  "lowercase_ledger J st cats \<longleftrightarrow>
     (\<forall>k b. ledger st k = Some b \<longrightarrow>
        (\<exists>p c. b = Marshal J p \<and> cats k = Some c \<and> Category p = ToLower J c))"

text \<open>
  The ledger of the three creations with a store that refuses to write Carol's key.
\<close>

definition refusing_carol :: stub where
  "refusing_carol = created_three
     \<lparr>get_fault := (\<lambda>k. None),
      put_fault := (\<lambda>k. if k = ''Carol'' then Some ''write refused'' else None)\<rparr>"

section \<open>Properties\<close>

subsection \<open>The concrete codec is reversible\<close>

lemma of_char_digit_char: "d < 10 \<Longrightarrow> (of_char (digit_char d) :: nat) = 48 + d"
  by (simp add: digit_char_def)

lemma is_digit_digit_char: "d < 10 \<Longrightarrow> is_digit (digit_char d)"
  by (simp add: is_digit_def of_char_digit_char)

lemma digit_val_digit_char: "d < 10 \<Longrightarrow> digit_val (digit_char d) = d"
  by (simp add: digit_val_def of_char_digit_char)

lemma digits_of_all_digits: "c \<in> set (digits_of n) \<Longrightarrow> is_digit c"
proof (induction n rule: digits_of.induct)
  case (1 n)
  show ?case
  proof (cases "n < 10")
    case True
    with "1.prems" show ?thesis
      by (subst (asm) digits_of.simps) (simp add: is_digit_digit_char)
  next
    case False
    with "1.prems" "1.IH" show ?thesis
      by (subst (asm) digits_of.simps) (auto simp: is_digit_digit_char)
  qed
qed

lemma digits_of_nonempty: "digits_of n \<noteq> []"
  by (subst digits_of.simps) simp

lemma ParseUint_loop_snoc:
  "ParseUint_loop m xs = (k, None) \<Longrightarrow> ParseUint_loop m (xs @ [c]) = ParseUint_loop k [c]"
proof (induction xs arbitrary: m)
  case Nil
  then show ?case by simp
next
  case (Cons x xs)
  then show ?case by (auto simp: Let_def split: if_splits)
qed

lemma ParseUint_loop_digits_of:
  "n \<le> maxUint64 \<Longrightarrow> ParseUint_loop 0 (digits_of n) = (n, None)"
proof (induction n rule: digits_of.induct)
  case (1 n)
  show ?case
  proof (cases "n < 10")
    case True
    with "1.prems" show ?thesis
      by (subst digits_of.simps)
        (simp add: is_digit_digit_char digit_val_digit_char maxUint64_def)
  next
    case False
    from "1.prems" have le: "n div 10 \<le> maxUint64" by simp
    have pre: "ParseUint_loop 0 (digits_of (n div 10)) = (n div 10, None)"
      using "1.IH" False le by simp
    have small: "\<not> n div 10 \<ge> maxUint64 div 10 + 1"
      using "1.prems" by (simp add: maxUint64_def)
    have "ParseUint_loop 0 (digits_of n) =
          ParseUint_loop (n div 10) [digit_char (n mod 10)]"
      using False ParseUint_loop_snoc [OF pre] by (subst digits_of.simps) simp
    also have "\<dots> = (n, None)"
      using small "1.prems"
      by (simp add: is_digit_digit_char digit_val_digit_char Let_def)
    finally show ?thesis .
  qed
qed

lemma ParseUint_digits_of: "n \<le> maxUint64 \<Longrightarrow> ParseUint (digits_of n) = (n, None)"
  by (simp add: ParseUint_def digits_of_nonempty ParseUint_loop_digits_of)

lemma hd_digits_of_no_sign:
  "hd (digits_of n) \<noteq> CHR ''+'' \<and> hd (digits_of n) \<noteq> CHR ''-''"
proof -
  have "is_digit (hd (digits_of n))"
    using digits_of_all_digits [of "hd (digits_of n)" n] digits_of_nonempty [of n] by simp
  then show ?thesis by (auto simp: is_digit_def)
qed

lemma ParseInt_Itoa:
  assumes "- (2 ^ 63) \<le> i" and "i < 2 ^ 63"
  shows "ParseInt (Itoa i) = (i, None)"
proof (cases "i < 0")
  case True
  with assms have "nat (- i) \<le> maxUint64" and "\<not> nat (- i) > 2 ^ 63"
    by (simp_all add: maxUint64_def)
  with True show ?thesis
    by (simp add: ParseInt_def Itoa_def ParseUint_digits_of)
next
  case False
  with assms have "nat i \<le> maxUint64" and "\<not> nat i \<ge> 2 ^ 63"
    by (simp_all add: maxUint64_def)
  with False show ?thesis
    using hd_digits_of_no_sign [of "nat i"]
    by (simp add: ParseInt_def Itoa_def ParseUint_digits_of digits_of_nonempty)
qed

lemma Atoi_Itoa: "Atoi (Itoa (sint (w :: go_int))) = (w, None)"
proof -
  have "- (2 ^ 63) \<le> sint w" and "sint w < 2 ^ 63"
    using sint_ge [of w] sint_lt [of w] by simp_all
  then show ?thesis by (simp add: Atoi_def ParseInt_Itoa)
qed

lemma unquote_escape: "unquote (escape s @ CHR 0x22 # r) = Some (s, r)"
  by (induction s) simp_all

lemma ref_parse_Marshal: "ref_parse (ref_Marshal p) = Some p"
  by (simp add: ref_parse_def ref_Marshal_def unquote_escape Atoi_Itoa)

lemma ref_Unmarshal_Marshal: "ref_Unmarshal (ref_Marshal p) = Inr p"
  by (simp add: ref_Unmarshal_def ref_parse_Marshal) (simp add: ref_Marshal_def)

lemma reversible_ref_codec: "reversible ref_codec"
  by (simp add: reversible_def ref_codec_def ref_Unmarshal_Marshal)

lemma rejects_empty_ref_codec: "rejects_empty ref_codec"
  by (simp add: rejects_empty_def ref_codec_def ref_Unmarshal_def)

subsection \<open>The two instances agree on plain records\<close>

lemma ref_Unmarshal_empty: "ref_Unmarshal [] = Inl ''unexpected end of JSON input''"
  by (simp add: ref_Unmarshal_def)

lemma json_escape_plain: "plain s \<Longrightarrow> json_escape s = escape s"
proof (induction s)
  case Nil
  then show ?case by (simp add: json_escape.simps)
next
  case (Cons c s)
  then have "plain s" and c: "32 \<le> (of_char c :: nat)" "(of_char c :: nat) < 128"
    "c \<noteq> CHR ''<''" "c \<noteq> CHR ''>''" "c \<noteq> CHR ''&''"
    by (simp_all add: plain_def)
  with Cons.IH have "json_escape s = escape s" by simp
  moreover from c have "c \<noteq> CHR 0x0A" "c \<noteq> CHR 0x0D" "c \<noteq> CHR 0x09" by auto
  ultimately show ?case using c
    by (simp add: json_escape.simps(2) [of c s] escape_ascii_def)
qed

lemma json_Marshal_plain:
  "plain (ObjectType p) \<Longrightarrow> plain (Name p) \<Longrightarrow> plain (Category p) \<Longrightarrow>
   json_Marshal p = ref_Marshal p"
  by (simp add: json_Marshal_def ref_Marshal_def json_escape_plain)

lemma json_unquote_escape: "json_unquote (escape s @ CHR 0x22 # r) = Some (s, r)"
  by (induction s) (simp_all add: unescape_def)

lemma json_parse_ref_Marshal: "json_parse (ref_Marshal p) = Some p"
  by (simp add: json_parse_def ref_Marshal_def json_unquote_escape Atoi_Itoa)

lemma json_round_trip_plain:
  assumes "plain (ObjectType p)" and "plain (Name p)" and "plain (Category p)"
  shows "Unmarshal json_codec (Marshal json_codec p) = Inr p"
proof -
  have "ref_Marshal p \<noteq> []" by (simp add: ref_Marshal_def)
  with assms show ?thesis
    by (simp add: json_codec_def json_Unmarshal_def json_Marshal_plain json_parse_ref_Marshal)
qed

subsection \<open>The JSON codec reverses valid UTF-8\<close>

lemma plain_valid_utf8: "plain s \<Longrightarrow> valid_utf8 s"
  by (induction s) (simp_all add: plain_def valid_utf8.simps)

lemma hex_value_digit: "d < 16 \<Longrightarrow> hex_value (hex_digit d) = Some d"
proof -
  assume "d < 16"
  then have "d = 0 \<or> d = 1 \<or> d = 2 \<or> d = 3 \<or> d = 4 \<or> d = 5 \<or> d = 6 \<or> d = 7 \<or>
      d = 8 \<or> d = 9 \<or> d = 10 \<or> d = 11 \<or> d = 12 \<or> d = 13 \<or> d = 14 \<or> d = 15"
    by presburger
  then show ?thesis
    by (auto simp: hex_digit_def hex_value_def)
qed

lemma code_point_ascii:
  assumes "n < 128"
  shows "code_point (hex_digit (n div 4096)) (hex_digit (n div 256 mod 16))
           (hex_digit (n div 16 mod 16)) (hex_digit (n mod 16)) = Some n"
proof -
  from assms have z: "n div 4096 = 0" "n div 256 mod 16 = 0" by simp_all
  from assms have d: "n div 16 < 16" "n mod 16 < 16" by simp_all
  then have m: "n div 16 mod 16 = n div 16" by simp
  have "hex_value (hex_digit 0) = Some 0" by (rule hex_value_digit) simp
  with assms show ?thesis
    by (simp add: code_point_def z hex_value_digit [OF d(1)] hex_value_digit [OF d(2)] m)
qed

lemma json_unquote_copy:
  "\<forall>x \<in> set xs. x \<noteq> CHR 0x22 \<and> x \<noteq> CHR 0x5C \<Longrightarrow>
   json_unquote (xs @ rest) = map_option (\<lambda>(s, r). (xs @ s, r)) (json_unquote rest)"
proof (induction xs)
  case Nil
  show ?case by (cases "json_unquote rest") auto
next
  case (Cons x xs)
  then show ?case by (cases "json_unquote rest") auto
qed

lemma json_unquote_unicode:
  "code_point h1 h2 h3 h4 = Some n \<Longrightarrow>
   json_unquote ([CHR 0x5C, CHR ''u'', h1, h2, h3, h4] @ rest) =
     map_option (\<lambda>(s, r). (utf8_encode n @ s, r)) (json_unquote rest)"
  by simp

lemma json_unquote_ascii:
  assumes "(of_char c :: nat) < 128"
  shows "json_unquote (escape_ascii c @ rest) =
     map_option (\<lambda>(s, r). (c # s, r)) (json_unquote rest)"
proof (cases "c = CHR 0x22 \<or> c = CHR 0x5C \<or> c = CHR 0x0A \<or> c = CHR 0x0D \<or> c = CHR 0x09")
  case True
  then show ?thesis
    by (auto simp: escape_ascii_def unescape_def)
next
  case False
  show ?thesis
  proof (cases "(of_char c :: nat) < 32 \<or> c = CHR ''<'' \<or> c = CHR ''>'' \<or> c = CHR ''&''")
    case True
    with False have e: "escape_ascii c = unicode_escape (of_char c)"
      by (simp add: escape_ascii_def)
    from assms have "utf8_encode (of_char c) = [c]"
      by (simp add: utf8_encode_def)
    with code_point_ascii [OF assms] show ?thesis
      unfolding e unicode_escape_def
      by (simp only: json_unquote_unicode) simp
  next
    case F2: False
    with False have "escape_ascii c = [c]" by (simp add: escape_ascii_def)
    with False show ?thesis by simp
  qed
qed


lemma utf8_width_bytes:
  assumes "utf8_width (c # cs) \<noteq> 0"
  shows "\<forall>x \<in> set (take (utf8_width (c # cs)) (c # cs)). 128 \<le> (of_char x :: nat)"
  using assms
  by (auto simp: utf8_width_def continuation_def Let_def split: list.splits if_splits)

lemma high_byte_copied: "128 \<le> (of_char x :: nat) \<Longrightarrow> x \<noteq> CHR 0x22 \<and> x \<noteq> CHR 0x5C"
  by auto

lemma utf8_encode_2028: "utf8_encode 8232 = [CHR 0xE2, CHR 0x80, CHR 0xA8]"
proof -
  have "map (of_char :: char \<Rightarrow> nat) (utf8_encode 8232) = map of_char [CHR 0xE2, CHR 0x80, CHR 0xA8]"
    by (simp add: utf8_encode_def)
  then show ?thesis
    by (simp only: inj_map_eq_map [OF inj_of_char])
qed

lemma utf8_encode_2029: "utf8_encode 8233 = [CHR 0xE2, CHR 0x80, CHR 0xA9]"
proof -
  have "map (of_char :: char \<Rightarrow> nat) (utf8_encode 8233) = map of_char [CHR 0xE2, CHR 0x80, CHR 0xA9]"
    by (simp add: utf8_encode_def)
  then show ?thesis
    by (simp only: inj_map_eq_map [OF inj_of_char])
qed

lemma json_unquote_2028:
  "json_unquote (unicode_escape 8232 @ rest) =
     map_option (\<lambda>(s, r). ([CHR 0xE2, CHR 0x80, CHR 0xA8] @ s, r)) (json_unquote rest)"
  by (simp add: unicode_escape_def hex_digit_def code_point_def hex_value_def utf8_encode_2028)

lemma json_unquote_2029:
  "json_unquote (unicode_escape 8233 @ rest) =
     map_option (\<lambda>(s, r). ([CHR 0xE2, CHR 0x80, CHR 0xA9] @ s, r)) (json_unquote rest)"
  by (simp add: unicode_escape_def hex_digit_def code_point_def hex_value_def utf8_encode_2029)

lemma json_unquote_json_escape:
  "valid_utf8 s \<Longrightarrow> json_unquote (json_escape s @ CHR 0x22 # r) = Some (s, r)"
proof (induction s rule: valid_utf8.induct)
  case 1
  show ?case by (simp add: json_escape.simps)
next
  case (2 c cs)
  show ?case
  proof (cases "(of_char c :: nat) < 128")
    case True
    with "2.prems" have "valid_utf8 cs" by (simp add: valid_utf8.simps)
    with "2.IH"(1) True have "json_unquote (json_escape cs @ CHR 0x22 # r) = Some (cs, r)"
      by simp
    with True show ?thesis
      by (simp add: json_escape.simps(2) [of c cs] json_unquote_ascii)
  next
    case False
    let ?w = "utf8_width (c # cs)"
    from "2.prems" False have w: "?w \<noteq> 0" and v: "valid_utf8 (drop ?w (c # cs))"
      by (simp_all add: valid_utf8.simps(2) [of c cs] Let_def split: if_splits)
    from "2.IH"(2) [OF False refl w v]
    have IH: "json_unquote (json_escape (drop ?w (c # cs)) @ CHR 0x22 # r) =
        Some (drop ?w (c # cs), r)" .
    have whole: "take ?w (c # cs) @ drop ?w (c # cs) = c # cs"
      by (rule append_take_drop_id)
    show ?thesis
    proof (cases "take ?w (c # cs) = [CHR 0xE2, CHR 0x80, CHR 0xA8]")
      case True
      with False w have "json_escape (c # cs) =
          unicode_escape 8232 @ json_escape (drop ?w (c # cs))"
        by (simp add: json_escape.simps(2) [of c cs] Let_def)
      with IH whole True show ?thesis
        by (simp add: json_unquote_2028)
    next
      case n1: False
      show ?thesis
      proof (cases "take ?w (c # cs) = [CHR 0xE2, CHR 0x80, CHR 0xA9]")
        case True
        with False w have "json_escape (c # cs) =
            unicode_escape 8233 @ json_escape (drop ?w (c # cs))"
          by (simp add: json_escape.simps(2) [of c cs] Let_def)
        with IH whole True show ?thesis
          by (simp add: json_unquote_2029)
      next
        case n2: False
        with n1 False w have e: "json_escape (c # cs) =
            take ?w (c # cs) @ json_escape (drop ?w (c # cs))"
          by (simp add: json_escape.simps(2) [of c cs] Let_def)
        from utf8_width_bytes [OF w] high_byte_copied
        have "\<forall>x \<in> set (take ?w (c # cs)). x \<noteq> CHR 0x22 \<and> x \<noteq> CHR 0x5C"
          by blast
        from json_unquote_copy [OF this, of "json_escape (drop ?w (c # cs)) @ CHR 0x22 # r"] IH whole
        show ?thesis
          unfolding e by simp
      qed
    qed
  qed
qed

lemma json_round_trip_utf8:
  assumes "valid_utf8 (ObjectType p)" and "valid_utf8 (Name p)" and "valid_utf8 (Category p)"
  shows "json_Unmarshal (json_Marshal p) = Inr p"
proof -
  have ne: "json_Marshal p \<noteq> []" by (simp add: json_Marshal_def)
  have "json_parse (json_Marshal p) = Some p"
    using assms
    by (simp add: json_parse_def json_Marshal_def json_unquote_json_escape Atoi_Itoa)
  with ne show ?thesis by (simp add: json_Unmarshal_def)
qed

subsection \<open>The stub and the paths through the three functions\<close>

lemma transferPoints_amount_cong:
  "fst (Atoi t) = fst (Atoi t') \<Longrightarrow>
   transferPoints J st (s # r # t # rest) = transferPoints J st (s # r # t' # rest')"
  by (simp add: transferPoints_def)

lemma PutState_ok: "put_fault st k = None \<Longrightarrow> PutState st k v = Inr (st\<lparr>ledger := (ledger st)(k \<mapsto> v)\<rparr>)"
  by (simp add: PutState_def)

lemma PutState_Inr: "PutState st k v = Inr st' \<Longrightarrow> put_fault st k = None \<and> st' = st\<lparr>ledger := (ledger st)(k \<mapsto> v)\<rparr>"
  by (simp add: PutState_def split: option.splits)

lemma GetState_Inr: "GetState st k = Inr b \<longleftrightarrow> get_fault st k = None \<and> b = ledger st k"
  by (auto simp: GetState_def split: option.splits)

lemma transferPoints_taxed_path:
  assumes "GetState st s = Inr (Some sb)" and "GetState st r = Inr rb"
    and "GetState st ''TaxAuth'' = Inr tb"
    and "Unmarshal J (slice tb) = Inr tp" and "Unmarshal J sb = Inr sp"
    and "Unmarshal J (slice rb) = Inr rp"
    and "Category sp \<noteq> ''TaxAuth''" and "Category rp \<noteq> ''TaxAuth''"
    and "\<not> go_less (Balance sp) (fst (Atoi t))"
    and "Category rp \<noteq> ''TaxExempt''"
    and "put_fault st ''TaxAuth'' = None" and "put_fault st s = None" and "put_fault st r = None"
  shows "transferPoints J st (s # r # t # rest) =
    (Success None,
     st\<lparr>ledger := (ledger st)
       (''TaxAuth'' \<mapsto> Marshal J (tp\<lparr>Balance := Balance tp + go_quo (fst (Atoi t) * 2) 100\<rparr>),
        s \<mapsto> Marshal J (sp\<lparr>Balance := Balance sp - fst (Atoi t)\<rparr>),
        r \<mapsto> Marshal J (rp\<lparr>Balance := Balance rp + (fst (Atoi t) - go_quo (fst (Atoi t) * 2) 100)\<rparr>))\<rparr>)"
  using assms by (simp add: transferPoints_def slice_def PutState_def Let_def)

lemma transferPoints_SuccessD:
  assumes "transferPoints J st (s # r # t # rest) = (Success pl, st')"
  shows "\<exists>sb rb tb tp sp rp.
    GetState st s = Inr (Some sb) \<and> GetState st r = Inr rb \<and> GetState st ''TaxAuth'' = Inr tb \<and>
    Unmarshal J (slice tb) = Inr tp \<and> Unmarshal J sb = Inr sp \<and> Unmarshal J (slice rb) = Inr rp \<and>
    Category sp \<noteq> ''TaxAuth'' \<and> Category rp \<noteq> ''TaxAuth'' \<and>
    \<not> go_less (Balance sp) (fst (Atoi t)) \<and> put_fault st s = None \<and> put_fault st r = None \<and>
    (Category rp \<noteq> ''TaxExempt'' \<longrightarrow> put_fault st ''TaxAuth'' = None)"
  using assms
  by (auto simp: transferPoints_def slice_def Let_def PutState_def
      split: sum.splits option.splits if_splits prod.splits)

lemma Atoi_empty: "Atoi [] = (0, Some ErrSyntax)"
  by (simp add: Atoi_def ParseInt_def)

lemma initParty_succeeds:
  assumes "name \<noteq> []" and "category \<noteq> []" and "Atoi balanceText = (b, None)"
    and "GetState st name = Inr None" and "put_fault st name = None"
  shows "initParty J st [name, category, balanceText] =
    (Success None,
     st\<lparr>ledger := (ledger st)(name \<mapsto> Marshal J (new_participant name (ToLower J category) b))\<rparr>)"
proof -
  from assms(3) have "balanceText \<noteq> []" by (auto simp: Atoi_empty)
  with assms show ?thesis
    by (simp add: initParty_def PutState_def new_participant_def)
qed

lemma initParty_SuccessD:
  assumes "initParty J st [name, category, balanceText] = (Success pl, st')"
  shows "name \<noteq> [] \<and> category \<noteq> [] \<and> balanceText \<noteq> [] \<and> snd (Atoi balanceText) = None \<and>
    GetState st name = Inr None \<and> put_fault st name = None \<and> pl = None \<and>
    st' = st\<lparr>ledger := (ledger st)(name \<mapsto>
            Marshal J (new_participant name (ToLower J category) (fst (Atoi balanceText))))\<rparr>"
  using assms
  by (auto simp: initParty_def PutState_def new_participant_def Let_def
      split: if_splits sum.splits option.splits prod.splits)

subsection \<open>Evaluations used by the examples\<close>

lemma Atoi_500: "Atoi ''500'' = (500, None)"
  by (simp add: Atoi_def ParseInt_def ParseUint_def is_digit_def digit_val_def maxUint64_def)

lemma ToLower_Normal: "ascii_ToLower ''Normal'' = ''normal''"
  by code_simp

lemma c1: "char_of (239 :: nat) = CHR 0xEF"
proof -
  have "(of_char (char_of (239 :: nat)) :: nat) = of_char (CHR 0xEF)" by simp
  then show ?thesis by (simp only: of_char_eq_iff)
qed

lemma utf8_encode_fffd: "utf8_encode 65533 = [CHR 0xEF, CHR 0xBF, CHR 0xBD]"
proof -
  have "map (of_char :: char \<Rightarrow> nat) (utf8_encode 65533) = map of_char [CHR 0xEF, CHR 0xBF, CHR 0xBD]"
    by (simp add: utf8_encode_def)
  then show ?thesis
    by (simp only: inj_map_eq_map [OF inj_of_char])
qed

lemma code_point_fffd: "code_point (CHR ''f'') (CHR ''f'') (CHR ''f'') (CHR ''d'') = Some 65533"
  by (simp add: code_point_def hex_value_def)

lemma json_escape_ff:
  "json_escape [CHR 0xFF] = [CHR 0x5C, CHR ''u'', CHR ''f'', CHR ''f'', CHR ''f'', CHR ''d'']"
  by (simp add: json_escape.simps utf8_width_def unicode_escape_def hex_digit_def)

lemma plain_words: "plain ''participant''" "plain ''normal''" "plain ''Alice''"
  by (simp_all add: plain_def)

lemma Itoa_500: "Itoa 500 = ''500''"
  by code_simp

lemma json_Marshal_ff:
  "json_Marshal \<lparr>ObjectType = ''participant'', Name = [CHR 0xFF], Category = ''normal'',
      Balance = 500\<rparr> =
   replaced_name_payload"
  by (simp add: json_Marshal_def json_escape_ff json_escape_plain plain_words
      Itoa_500 replaced_name_payload_def)

lemma json_Unmarshal_ff:
  "json_Unmarshal replaced_name_payload =
   Inr \<lparr>ObjectType = ''participant'', Name = [CHR 0xEF, CHR 0xBF, CHR 0xBD],
        Category = ''normal'', Balance = 500\<rparr>"
  by (simp add: json_Unmarshal_def json_parse_def code_point_fffd utf8_encode_fffd Atoi_500
      replaced_name_payload_def)

lemma json_initParty:
  assumes "name \<noteq> []" and "category \<noteq> []" and "Atoi balanceText = (b, None)"
  shows "initParty json_codec empty_stub [name, category, balanceText] =
    (Success None,
     empty_stub\<lparr>ledger := [name \<mapsto>
        json_Marshal (new_participant name (ascii_ToLower category) b)]\<rparr>)"
  using initParty_succeeds [OF assms, of empty_stub json_codec]
  by (simp add: GetState_def empty_stub_def json_codec_def)

subsection \<open>What \<open>Atoi\<close> returns with an error\<close>

lemma Atoi_syntax_zero: "snd (Atoi t) = Some ErrSyntax \<Longrightarrow> fst (Atoi t) = 0"
  by (auto simp: Atoi_def ParseInt_def Let_def split: prod.splits if_splits)

lemma Atoi_range_clamped:
  "snd (Atoi t) = Some ErrRange \<Longrightarrow>
   fst (Atoi t) = 9223372036854775807 \<or> fst (Atoi t) = - 9223372036854775808"
  by (auto simp: Atoi_def ParseInt_def Let_def split: prod.splits if_splits)

lemma Atoi_0: "Atoi ''0'' = (0, None)"
  by (simp add: Atoi_def ParseInt_def ParseUint_def is_digit_def digit_val_def maxUint64_def)

lemma Atoi_max: "Atoi ''9223372036854775807'' = (9223372036854775807, None)"
  by (simp add: Atoi_def ParseInt_def ParseUint_def is_digit_def digit_val_def maxUint64_def)

lemma Atoi_min: "Atoi ''-9223372036854775808'' = (- 9223372036854775808, None)"
  by (simp add: Atoi_def ParseInt_def ParseUint_def is_digit_def digit_val_def maxUint64_def)

lemma Atoi_over: "Atoi ''9223372036854775808'' = (9223372036854775807, Some ErrRange)"
  by (simp add: Atoi_def ParseInt_def ParseUint_def is_digit_def digit_val_def maxUint64_def)

lemma Atoi_12x: "Atoi ''12x'' = (0, Some ErrSyntax)"
  by (simp add: Atoi_def ParseInt_def ParseUint_def is_digit_def digit_val_def maxUint64_def)

lemma Atoi_10000: "Atoi ''10000'' = (10000, None)"
  by (simp add: Atoi_def ParseInt_def ParseUint_def is_digit_def digit_val_def maxUint64_def)

lemma Atoi_range_bound:
  "snd (Atoi t) = Some ErrRange \<Longrightarrow>
   fst (Atoi t) = (if hd t = CHR ''-'' then - 9223372036854775808 else 9223372036854775807)"
  by (auto simp: Atoi_def ParseInt_def Let_def split: prod.splits if_splits)

lemma Atoi_under: "Atoi ''-9223372036854775809'' = (- 9223372036854775808, Some ErrRange)"
  by (simp add: Atoi_def ParseInt_def ParseUint_def is_digit_def digit_val_def maxUint64_def)

lemma Atoi_digits_then_x:
  "Atoi ''99999999999999999999x'' = (9223372036854775807, Some ErrRange)"
  by (simp add: Atoi_def ParseInt_def ParseUint_def is_digit_def digit_val_def maxUint64_def)

lemmas run_simps =
  transferPoints_def GetState_def PutState_def slice_def Let_def go_less_def
  three_parties_def holding_def ref_codec_def new_participant_def ref_Unmarshal_Marshal

lemmas stored_simps = stored_def balance_of_def

subsection \<open>Creating and reading\<close>

text \<open>
  Claim C6, as amended. When the key \<open>name\<close> already holds a record, \<open>initParty\<close> on that
  name fails and writes nothing: the stub it returns is the one it was given, so the record
  stored under \<open>name\<close> (and its balance) is unchanged. The failure is the one for an
  existing participant when the three arguments are non-empty, the balance parses and the
  read of the key succeeds; otherwise an earlier check fails first.
\<close>

theorem initParty_existing_key:
  assumes "ledger st name = Some v"
  shows "\<exists>msg. initParty J st [name, category, balanceText] = (Error msg, st) \<and>
    (name \<noteq> [] \<and> category \<noteq> [] \<and> balanceText \<noteq> [] \<and> snd (Atoi balanceText) = None \<and>
     get_fault st name = None \<longrightarrow> msg = ''This Participant already exists: '' @ name)"
  using assms
  by (auto simp: initParty_def GetState_def Let_def split: option.splits prod.splits)

theorem initParty_existing_key_witness:
  "ledger (holding [(''Alice'', new_participant ''Alice'' ''normal'' 500)]) ''Alice''
     = Some (ref_Marshal (new_participant ''Alice'' ''normal'' 500)) \<and>
   initParty ref_codec (holding [(''Alice'', new_participant ''Alice'' ''normal'' 500)])
     [''Alice'', ''Normal'', ''7''] =
   (Error ''This Participant already exists: Alice'',
    holding [(''Alice'', new_participant ''Alice'' ''normal'' 500)])"
proof -
  let ?st = "holding [(''Alice'', new_participant ''Alice'' ''normal'' 500)]"
  have held: "ledger ?st ''Alice'' = Some (ref_Marshal (new_participant ''Alice'' ''normal'' 500))"
    by (simp add: holding_def)
  have parses: "snd (Atoi ''7'') = None"
    by (simp add: Atoi_def ParseInt_def ParseUint_def is_digit_def digit_val_def maxUint64_def)
  have nofault: "get_fault ?st ''Alice'' = None"
    by (simp add: holding_def)
  from initParty_existing_key [OF held, of ref_codec "''Normal''" "''7''"] parses nofault held
  show ?thesis by auto
qed

text \<open>
  Claim C6 as stated fails when an input check fails before the store is read: with Alice
  stored, \<open>initParty("Alice", "", "7")\<close> and \<open>initParty("Alice", "Normal", "12x")\<close> return
  the failures for the empty and for the non-numeric argument.
\<close>

theorem initParty_existing_key_counterexample:
  "ledger (holding [(''Alice'', new_participant ''Alice'' ''normal'' 500)]) ''Alice''
     = Some (ref_Marshal (new_participant ''Alice'' ''normal'' 500)) \<and>
   initParty ref_codec (holding [(''Alice'', new_participant ''Alice'' ''normal'' 500)])
     [''Alice'', [], ''7''] =
     (Error ''2nd argument must be a non-empty string'',
      holding [(''Alice'', new_participant ''Alice'' ''normal'' 500)]) \<and>
   initParty ref_codec (holding [(''Alice'', new_participant ''Alice'' ''normal'' 500)])
     [''Alice'', ''Normal'', ''12x''] =
     (Error ''3rd argument must be a numeric string'',
      holding [(''Alice'', new_participant ''Alice'' ''normal'' 500)])"
  by (simp add: initParty_def holding_def Atoi_12x)

text \<open>
  Claim C8, as amended. Round trip: after a successful
  \<open>initParty(name, category, balanceText)\<close>, where \<open>balanceText\<close> parses to \<open>b\<close>,
  \<open>readParty(name)\<close> succeeds and its payload is the encoding of the participant with that
  name, the lowercase form of the category and the balance \<open>b\<close>. With the JSON codec the
  payload decodes to that participant when the name and the lowercase form of the category
  are valid UTF-8; with any codec it does exactly when the codec decodes the encoding of
  that participant to itself. (A successful \<open>initParty\<close> implies that name and category are
  non-empty and that the key held nothing, see \<open>initParty_SuccessD\<close>.)
\<close>

theorem create_read_round_trip:
  assumes "Atoi balanceText = (b, None)"
    and "initParty J st [name, category, balanceText] = (Success pl, st')"
  shows "(let p = \<lparr>ObjectType = ''participant'', Name = name,
                  Category = ToLower J category, Balance = b\<rparr>
     in readParty J st' [name] = (Success (Some (Marshal J p)), st') \<and>
        (Marshal J = json_Marshal \<and> Unmarshal J = json_Unmarshal \<and>
         valid_utf8 name \<and> valid_utf8 (ToLower J category) \<longrightarrow>
           (\<exists>payload. readParty J st' [name] = (Success (Some payload), st') \<and>
              Unmarshal J payload = Inr p)) \<and>
        ((\<exists>payload. readParty J st' [name] = (Success (Some payload), st') \<and>
             Unmarshal J payload = Inr p) \<longleftrightarrow>
         Unmarshal J (Marshal J p) = Inr p))"
proof -
  let ?p = "new_participant name (ToLower J category) b"
  from initParty_SuccessD [OF assms(2)] assms(1)
  have st': "st' = st\<lparr>ledger := (ledger st)(name \<mapsto> Marshal J ?p)\<rparr>"
    and nofault: "GetState st name = Inr None"
    by simp_all
  from nofault have "get_fault st name = None" by (simp add: GetState_Inr)
  then have read: "readParty J st' [name] = (Success (Some (Marshal J ?p)), st')"
    by (simp add: readParty_def GetState_def st')
  have json: "json_Unmarshal (json_Marshal ?p) = Inr ?p"
    if "valid_utf8 name" and "valid_utf8 (ToLower J category)"
    using that
    by (intro json_round_trip_utf8) (simp_all add: new_participant_def plain_valid_utf8 plain_words)
  have decoded: "\<exists>payload. readParty J st' [name] = (Success (Some payload), st') \<and>
      Unmarshal J payload = Inr ?p"
    if "Marshal J = json_Marshal" and "Unmarshal J = json_Unmarshal"
      and "valid_utf8 name" and "valid_utf8 (ToLower J category)"
    using read json that by simp
  have iff: "(\<exists>payload. readParty J st' [name] = (Success (Some payload), st') \<and>
      Unmarshal J payload = Inr ?p) \<longleftrightarrow> Unmarshal J (Marshal J ?p) = Inr ?p"
    using read by auto
  from read decoded iff show ?thesis
    unfolding new_participant_def Let_def by blast
qed

theorem create_read_round_trip_witness:
  "Atoi ''500'' = (500, None) \<and>
   fst (initParty json_codec empty_stub [''Alice'', ''Normal'', ''500'']) = Success None \<and>
   Marshal json_codec = json_Marshal \<and> Unmarshal json_codec = json_Unmarshal \<and>
   valid_utf8 ''Alice'' \<and> valid_utf8 (ToLower json_codec ''Normal'') \<and>
   Unmarshal json_codec (Marshal json_codec
     \<lparr>ObjectType = ''participant'', Name = ''Alice'', Category = ''normal'', Balance = 500\<rparr>) =
     Inr \<lparr>ObjectType = ''participant'', Name = ''Alice'', Category = ''normal'', Balance = 500\<rparr> \<and>
   (\<exists>payload.
      readParty json_codec (snd (initParty json_codec empty_stub [''Alice'', ''Normal'', ''500'']))
        [''Alice''] =
        (Success (Some payload),
         snd (initParty json_codec empty_stub [''Alice'', ''Normal'', ''500''])) \<and>
      Unmarshal json_codec payload =
        Inr \<lparr>ObjectType = ''participant'', Name = ''Alice'', Category = ''normal'', Balance = 500\<rparr>)"
proof -
  let ?p = "\<lparr>ObjectType = ''participant'', Name = ''Alice'', Category = ''normal'', Balance = 500\<rparr>"
  let ?run = "initParty json_codec empty_stub [''Alice'', ''Normal'', ''500'']"
  have ok: "fst ?run = Success None"
    by (simp add: json_initParty Atoi_500)
  then have run: "?run = (Success None, snd ?run)"
    by (simp add: prod_eq_iff)
  have low: "ToLower json_codec ''Normal'' = ''normal''"
    by (simp add: json_codec_def ToLower_Normal)
  have codec: "Marshal json_codec = json_Marshal" "Unmarshal json_codec = json_Unmarshal"
    by (simp_all add: json_codec_def)
  have valid: "valid_utf8 ''Alice''" "valid_utf8 ''normal''"
    by (simp_all add: plain_valid_utf8 plain_words)
  have rt: "Unmarshal json_codec (Marshal json_codec ?p) = Inr ?p"
    by (rule json_round_trip_plain) (simp_all add: plain_words)
  have read: "\<exists>payload. readParty json_codec (snd ?run) [''Alice''] =
        (Success (Some payload), snd ?run) \<and> Unmarshal json_codec payload = Inr ?p"
  proof (rule mp [OF conjunct1 [OF conjunct2
          [OF create_read_round_trip [OF Atoi_500 run, unfolded Let_def low]]]])
    from codec valid
    show "Marshal json_codec = json_Marshal \<and> Unmarshal json_codec = json_Unmarshal \<and>
        valid_utf8 ''Alice'' \<and> valid_utf8 ''normal''"
      by (intro conjI)
  qed
  from ok codec valid low rt read show ?thesis
    by (simp add: Atoi_500)
qed

text \<open>
  Claim C8 as stated fails for a name that is not valid UTF-8: \<open>json.Marshal\<close> writes the
  byte \<open>0xFF\<close> as \<open>\ufffd\<close>, so after \<open>initParty\<close> of that name \<open>readParty\<close> returns a
  document whose name decodes to the three bytes of U+FFFD, not to the name given.
\<close>

theorem create_read_round_trip_counterexample:
  "[CHR 0xFF] \<noteq> [] \<and> ''Normal'' \<noteq> [] \<and> Atoi ''500'' = (500, None) \<and>
   ledger empty_stub [CHR 0xFF] = None \<and>
   fst (initParty json_codec empty_stub [[CHR 0xFF], ''Normal'', ''500'']) = Success None \<and>
   readParty json_codec (snd (initParty json_codec empty_stub [[CHR 0xFF], ''Normal'', ''500'']))
     [[CHR 0xFF]] =
     (Success (Some replaced_name_payload),
      snd (initParty json_codec empty_stub [[CHR 0xFF], ''Normal'', ''500''])) \<and>
   Unmarshal json_codec replaced_name_payload =
     Inr \<lparr>ObjectType = ''participant'', Name = [CHR 0xEF, CHR 0xBF, CHR 0xBD],
          Category = ''normal'', Balance = 500\<rparr> \<and>
   [CHR 0xEF, CHR 0xBF, CHR 0xBD] \<noteq> [CHR 0xFF]"
proof -
  have run: "initParty json_codec empty_stub [[CHR 0xFF], ''Normal'', ''500''] =
    (Success None,
     empty_stub\<lparr>ledger := [[CHR 0xFF] \<mapsto>
        json_Marshal (new_participant [CHR 0xFF] (ascii_ToLower ''Normal'') 500)]\<rparr>)"
    by (rule json_initParty) (simp_all add: Atoi_500)
  have enc: "json_Marshal (new_participant [CHR 0xFF] (ascii_ToLower ''Normal'') 500) =
      replaced_name_payload"
    unfolding new_participant_def ToLower_Normal by (rule json_Marshal_ff)
  have dec: "Unmarshal json_codec replaced_name_payload =
     Inr \<lparr>ObjectType = ''participant'', Name = [CHR 0xEF, CHR 0xBF, CHR 0xBD],
          Category = ''normal'', Balance = 500\<rparr>"
    using json_Unmarshal_ff by (simp add: json_codec_def)
  have read: "readParty json_codec (snd (initParty json_codec empty_stub [[CHR 0xFF], ''Normal'', ''500'']))
     [[CHR 0xFF]] =
     (Success (Some replaced_name_payload),
      snd (initParty json_codec empty_stub [[CHR 0xFF], ''Normal'', ''500'']))"
    unfolding run using enc by (simp add: readParty_def GetState_def empty_stub_def)
  show ?thesis
    using run read dec by (simp add: Atoi_500 empty_stub_def)
qed

subsection \<open>The amount that could not be parsed\<close>

text \<open>
  Claim C7, as amended. \<open>transferPoints\<close> never looks at the error of \<open>Atoi\<close>: its
  response and its writes depend on the third argument only through the value \<open>Atoi\<close>
  returns, so they are those of any other third argument with the same value, and no
  failure is due to the parse. When \<open>Atoi\<close> reports a syntax error the value is 0 and the
  call behaves exactly like the transfer of \<open>"0"\<close>. When \<open>Atoi\<close> reports a range error
  (digits that overflow before any other character is read, or a number outside the range
  of \<open>int\<close>) the value is 9223372036854775807, and the call behaves exactly like the
  transfer of that amount, unless the text starts with \<open>-\<close>: then the value is
  -9223372036854775808 and the call behaves exactly like the transfer of that amount.
\<close>

theorem transferPoints_unparsed_amount:
  "(\<forall>t. fst (Atoi t) = fst (Atoi amountText) \<longrightarrow>
      transferPoints J st (sender # receiver # amountText # rest) =
      transferPoints J st (sender # receiver # t # rest)) \<and>
   (snd (Atoi amountText) = Some ErrSyntax \<longrightarrow>
      fst (Atoi amountText) = 0 \<and>
      transferPoints J st (sender # receiver # amountText # rest) =
      transferPoints J st (sender # receiver # ''0'' # rest)) \<and>
   (snd (Atoi amountText) = Some ErrRange \<and> hd amountText \<noteq> CHR ''-'' \<longrightarrow>
      fst (Atoi amountText) = 9223372036854775807 \<and>
      transferPoints J st (sender # receiver # amountText # rest) =
      transferPoints J st (sender # receiver # ''9223372036854775807'' # rest)) \<and>
   (snd (Atoi amountText) = Some ErrRange \<and> hd amountText = CHR ''-'' \<longrightarrow>
      fst (Atoi amountText) = - 9223372036854775808 \<and>
      transferPoints J st (sender # receiver # amountText # rest) =
      transferPoints J st (sender # receiver # ''-9223372036854775808'' # rest))"
proof (intro conjI allI impI)
  fix t
  assume "fst (Atoi t) = fst (Atoi amountText)"
  then have "fst (Atoi amountText) = fst (Atoi t)" by simp
  then show "transferPoints J st (sender # receiver # amountText # rest) =
      transferPoints J st (sender # receiver # t # rest)"
    by (rule transferPoints_amount_cong)
next
  assume syn: "snd (Atoi amountText) = Some ErrSyntax"
  then show zero: "fst (Atoi amountText) = 0" by (rule Atoi_syntax_zero)
  then have "fst (Atoi amountText) = fst (Atoi ''0'')" by (simp add: Atoi_0)
  then show "transferPoints J st (sender # receiver # amountText # rest) =
      transferPoints J st (sender # receiver # ''0'' # rest)"
    by (rule transferPoints_amount_cong)
next
  assume range: "snd (Atoi amountText) = Some ErrRange \<and> hd amountText \<noteq> CHR ''-''"
  with Atoi_range_bound [of amountText]
  show top: "fst (Atoi amountText) = 9223372036854775807" by simp
  then have "fst (Atoi amountText) = fst (Atoi ''9223372036854775807'')"
    by (simp add: Atoi_max)
  then show "transferPoints J st (sender # receiver # amountText # rest) =
      transferPoints J st (sender # receiver # ''9223372036854775807'' # rest)"
    by (rule transferPoints_amount_cong)
next
  assume range: "snd (Atoi amountText) = Some ErrRange \<and> hd amountText = CHR ''-''"
  with Atoi_range_bound [of amountText]
  show bottom: "fst (Atoi amountText) = - 9223372036854775808" by simp
  then have "fst (Atoi amountText) = fst (Atoi ''-9223372036854775808'')"
    by (simp add: Atoi_min)
  then show "transferPoints J st (sender # receiver # amountText # rest) =
      transferPoints J st (sender # receiver # ''-9223372036854775808'' # rest)"
    by (rule transferPoints_amount_cong)
qed

theorem transferPoints_unparsed_amount_witness:
  "Atoi ''12x'' = (0, Some ErrSyntax) \<and>
   transferPoints ref_codec three_parties [''Alice'', ''Bob'', ''12x''] =
   transferPoints ref_codec three_parties [''Alice'', ''Bob'', ''0''] \<and>
   Atoi ''9223372036854775808'' = (9223372036854775807, Some ErrRange) \<and>
   transferPoints ref_codec three_parties [''Alice'', ''Bob'', ''9223372036854775808''] =
   transferPoints ref_codec three_parties [''Alice'', ''Bob'', ''9223372036854775807''] \<and>
   Atoi ''99999999999999999999x'' = (9223372036854775807, Some ErrRange) \<and>
   transferPoints ref_codec three_parties [''Alice'', ''Bob'', ''99999999999999999999x''] =
   transferPoints ref_codec three_parties [''Alice'', ''Bob'', ''9223372036854775807''] \<and>
   Atoi ''-9223372036854775809'' = (- 9223372036854775808, Some ErrRange) \<and>
   transferPoints ref_codec three_parties [''Alice'', ''Bob'', ''-9223372036854775809''] =
   transferPoints ref_codec three_parties [''Alice'', ''Bob'', ''-9223372036854775808''] \<and>
   fst (Atoi ''+0'') = fst (Atoi ''12x'') \<and>
   transferPoints ref_codec three_parties [''Alice'', ''Bob'', ''12x''] =
   transferPoints ref_codec three_parties [''Alice'', ''Bob'', ''+0'']"
proof -
  have plus0: "Atoi ''+0'' = (0, None)"
    by (simp add: Atoi_def ParseInt_def ParseUint_def is_digit_def digit_val_def maxUint64_def)
  note a = transferPoints_unparsed_amount
    [of "''12x''" ref_codec three_parties "''Alice''" "''Bob''" "[]"]
  note b = transferPoints_unparsed_amount
    [of "''9223372036854775808''" ref_codec three_parties "''Alice''" "''Bob''" "[]"]
  note c = transferPoints_unparsed_amount
    [of "''99999999999999999999x''" ref_codec three_parties "''Alice''" "''Bob''" "[]"]
  note d = transferPoints_unparsed_amount
    [of "''-9223372036854775809''" ref_codec three_parties "''Alice''" "''Bob''" "[]"]
  from a have "transferPoints ref_codec three_parties [''Alice'', ''Bob'', ''12x''] =
      transferPoints ref_codec three_parties [''Alice'', ''Bob'', ''0'']"
    by (simp add: Atoi_12x)
  moreover have "fst (Atoi ''+0'') = fst (Atoi ''12x'')"
    by (simp add: Atoi_12x plus0)
  with a have "transferPoints ref_codec three_parties [''Alice'', ''Bob'', ''12x''] =
      transferPoints ref_codec three_parties [''Alice'', ''Bob'', ''+0'']"
    by blast
  moreover from b have
    "transferPoints ref_codec three_parties [''Alice'', ''Bob'', ''9223372036854775808''] =
     transferPoints ref_codec three_parties [''Alice'', ''Bob'', ''9223372036854775807'']"
    by (simp add: Atoi_over)
  moreover from c have
    "transferPoints ref_codec three_parties [''Alice'', ''Bob'', ''99999999999999999999x''] =
     transferPoints ref_codec three_parties [''Alice'', ''Bob'', ''9223372036854775807'']"
    by (simp add: Atoi_digits_then_x)
  moreover from d have
    "transferPoints ref_codec three_parties [''Alice'', ''Bob'', ''-9223372036854775809''] =
     transferPoints ref_codec three_parties [''Alice'', ''Bob'', ''-9223372036854775808'']"
    by (simp add: Atoi_under)
  ultimately show ?thesis
    by (simp add: Atoi_12x Atoi_over Atoi_digits_then_x Atoi_under plus0)
qed

text \<open>
  Claim C7 as stated fails: \<open>"9223372036854775808"\<close> does not parse (range error), and
  the transfer is refused for lack of balance, where the transfer of \<open>"0"\<close> succeeds.
\<close>

theorem unparsed_amount_not_zero_counterexample:
  "snd (Atoi ''9223372036854775808'') = Some ErrRange \<and>
   transferPoints ref_codec three_parties [''Alice'', ''Bob'', ''9223372036854775808''] =
     (Error ''There is no enough balance in the sender account'', three_parties) \<and>
   fst (transferPoints ref_codec three_parties [''Alice'', ''Bob'', ''0'']) = Success None"
  by (simp add: run_simps Atoi_over Atoi_0)

subsection \<open>Rejected transfers\<close>

lemma transferPoints_rejects:
  assumes "GetState st s = Inr (Some sb)" and "GetState st r = Inr rb"
    and "GetState st ''TaxAuth'' = Inr tb"
    and "Unmarshal J (slice tb) = Inr tp" and "Unmarshal J sb = Inr sp"
    and "Unmarshal J (slice rb) = Inr rp"
  shows "Category sp = ''TaxAuth'' \<or> Category rp = ''TaxAuth'' \<Longrightarrow>
      transferPoints J st (s # r # t # rest) =
        (Error ''Tax Authority cann't Participate in any transaction'', st)"
    and "Category sp \<noteq> ''TaxAuth'' \<Longrightarrow> Category rp \<noteq> ''TaxAuth'' \<Longrightarrow>
      go_less (Balance sp) (fst (Atoi t)) \<Longrightarrow>
      transferPoints J st (s # r # t # rest) =
        (Error ''There is no enough balance in the sender account'', st)"
  using assms by (auto simp: transferPoints_def slice_def Let_def)

lemma transferPoints_fetch_fails:
  assumes "\<not> (\<exists>sb rb tb tp sp rp. GetState st s = Inr (Some sb) \<and> GetState st r = Inr rb \<and>
      GetState st ''TaxAuth'' = Inr tb \<and> Unmarshal J (slice tb) = Inr tp \<and>
      Unmarshal J sb = Inr sp \<and> Unmarshal J (slice rb) = Inr rp)"
  shows "\<exists>msg. transferPoints J st (s # r # t # rest) = (Error msg, st)"
proof (cases "GetState st s")
  case (Inl e)
  then show ?thesis by (simp add: transferPoints_def)
next
  case s: (Inr sbo)
  show ?thesis
  proof (cases sbo)
    case None
    with s show ?thesis by (simp add: transferPoints_def)
  next
    case (Some sb)
    show ?thesis
    proof (cases "GetState st r")
      case (Inl e)
      with s Some show ?thesis by (simp add: transferPoints_def)
    next
      case r: (Inr rb)
      show ?thesis
      proof (cases "GetState st ''TaxAuth''")
        case (Inl e)
        with s Some r show ?thesis by (simp add: transferPoints_def)
      next
        case t: (Inr tb)
        show ?thesis
        proof (cases "Unmarshal J (slice tb)")
          case (Inl e)
          with s Some r t show ?thesis by (simp add: transferPoints_def)
        next
          case tp: (Inr tp)
          show ?thesis
          proof (cases "Unmarshal J sb")
            case (Inl e)
            with s Some r t tp show ?thesis by (simp add: transferPoints_def slice_def)
          next
            case sp: (Inr sp)
            show ?thesis
            proof (cases "Unmarshal J (slice rb)")
              case (Inl e)
              with s Some r t tp sp show ?thesis by (simp add: transferPoints_def slice_def)
            next
              case (Inr rp)
              with s Some r t tp sp assms show ?thesis by blast
            qed
          qed
        qed
      qed
    qed
  qed
qed

text \<open>
  Claim C5, as amended. When the parsed amount is greater than the balance of the record
  stored for the sender, \<open>transferPoints\<close> fails and writes nothing: the stub it returns
  is the one it was given, so the records of sender, receiver and tax authority are
  unchanged. The failure is the one for insufficient balance when the three reads and
  decodings succeed and neither category is the tax authority's marker; otherwise an
  earlier step fails first.
\<close>

theorem transfer_insufficient_balance:
  assumes "stored J st sender = Some sp"
    and "go_less (Balance sp) (fst (Atoi amountText))"
  shows "\<exists>msg. transferPoints J st (sender # receiver # amountText # rest) = (Error msg, st) \<and>
    ((\<exists>rb tb rp tp. GetState st sender = Inr (ledger st sender) \<and>
        GetState st receiver = Inr rb \<and> Unmarshal J (slice rb) = Inr rp \<and>
        GetState st ''TaxAuth'' = Inr tb \<and> Unmarshal J (slice tb) = Inr tp \<and>
        Category sp \<noteq> ''TaxAuth'' \<and> Category rp \<noteq> ''TaxAuth'') \<longrightarrow>
     msg = ''There is no enough balance in the sender account'')"
proof -
  from assms(1) obtain sb where sb: "ledger st sender = Some sb" "Unmarshal J sb = Inr sp"
    by (auto simp: stored_def split: option.splits sum.splits)
  let ?run = "transferPoints J st (sender # receiver # amountText # rest)"
  show ?thesis
  proof (cases "\<exists>sb rb tb tp sp rp. GetState st sender = Inr (Some sb) \<and>
      GetState st receiver = Inr rb \<and> GetState st ''TaxAuth'' = Inr tb \<and>
      Unmarshal J (slice tb) = Inr tp \<and> Unmarshal J sb = Inr sp \<and>
      Unmarshal J (slice rb) = Inr rp")
    case False
    from transferPoints_fetch_fails [OF False]
    obtain msg where msg: "?run = (Error msg, st)" by blast
    from False sb have "\<not> (\<exists>rb tb rp tp. GetState st sender = Inr (ledger st sender) \<and>
        GetState st receiver = Inr rb \<and> Unmarshal J (slice rb) = Inr rp \<and>
        GetState st ''TaxAuth'' = Inr tb \<and> Unmarshal J (slice tb) = Inr tp \<and>
        Category sp \<noteq> ''TaxAuth'' \<and> Category rp \<noteq> ''TaxAuth'')"
      by auto
    with msg show ?thesis by blast
  next
    case True
    then obtain sb' rb tb tp sp' rp where f: "GetState st sender = Inr (Some sb')"
      "GetState st receiver = Inr rb" "GetState st ''TaxAuth'' = Inr tb"
      "Unmarshal J (slice tb) = Inr tp" "Unmarshal J sb' = Inr sp'"
      "Unmarshal J (slice rb) = Inr rp"
      by blast
    from f(1) sb have "sb' = sb" by (simp add: GetState_Inr)
    with f(5) sb(2) have sp': "sp' = sp" by simp
    show ?thesis
    proof (cases "Category sp = ''TaxAuth'' \<or> Category rp = ''TaxAuth''")
      case True
      with transferPoints_rejects(1) [OF f] sp'
      have "?run = (Error ''Tax Authority cann't Participate in any transaction'', st)"
        by simp
      moreover from True f(2,3,4,6) have "\<not> (\<exists>rb tb rp tp. GetState st sender = Inr (ledger st sender) \<and>
        GetState st receiver = Inr rb \<and> Unmarshal J (slice rb) = Inr rp \<and>
        GetState st ''TaxAuth'' = Inr tb \<and> Unmarshal J (slice tb) = Inr tp \<and>
        Category sp \<noteq> ''TaxAuth'' \<and> Category rp \<noteq> ''TaxAuth'')"
        by auto
      ultimately show ?thesis by blast
    next
      case False
      with transferPoints_rejects(2) [OF f] sp' assms(2)
      have "?run = (Error ''There is no enough balance in the sender account'', st)"
        by simp
      then show ?thesis by blast
    qed
  qed
qed

theorem transfer_insufficient_balance_witness:
  "stored ref_codec three_parties ''Alice'' = Some (new_participant ''Alice'' ''normal'' 500) \<and>
   go_less (Balance (new_participant ''Alice'' ''normal'' 500)) (fst (Atoi ''10000'')) \<and>
   transferPoints ref_codec three_parties [''Alice'', ''Bob'', ''10000''] =
     (Error ''There is no enough balance in the sender account'', three_parties)"
proof -
  have a: "stored ref_codec three_parties ''Alice'' = Some (new_participant ''Alice'' ''normal'' 500)"
    by (simp add: stored_def three_parties_def holding_def ref_codec_def ref_Unmarshal_Marshal)
  have b: "go_less (Balance (new_participant ''Alice'' ''normal'' 500)) (fst (Atoi ''10000''))"
    by (simp add: go_less_def new_participant_def Atoi_10000)
  have c: "\<exists>rb tb rp tp. GetState three_parties ''Alice'' = Inr (ledger three_parties ''Alice'') \<and>
        GetState three_parties ''Bob'' = Inr rb \<and> Unmarshal ref_codec (slice rb) = Inr rp \<and>
        GetState three_parties ''TaxAuth'' = Inr tb \<and> Unmarshal ref_codec (slice tb) = Inr tp \<and>
        Category (new_participant ''Alice'' ''normal'' 500) \<noteq> ''TaxAuth'' \<and>
        Category rp \<noteq> ''TaxAuth''"
    by (simp add: GetState_def three_parties_def holding_def ref_codec_def slice_def
        ref_Unmarshal_Marshal new_participant_def)
  from transfer_insufficient_balance [OF a b, of "''Bob''" "[]"] c a b
  show ?thesis by auto
qed

text \<open>
  Claim C5 as stated fails when an earlier step fails: Alice has 500 and sends 10000 to a
  key that holds nothing; the call returns the decoder's error for the missing record, not
  the failure for insufficient balance.
\<close>

theorem transfer_insufficient_balance_counterexample:
  "stored ref_codec three_parties ''Alice'' = Some (new_participant ''Alice'' ''normal'' 500) \<and>
   Atoi ''10000'' = (10000, None) \<and>
   go_less (Balance (new_participant ''Alice'' ''normal'' 500)) (fst (Atoi ''10000'')) \<and>
   ledger three_parties ''MissingUser'' = None \<and>
   transferPoints ref_codec three_parties [''Alice'', ''MissingUser'', ''10000''] =
     (Error ''unexpected end of JSON input'', three_parties)"
  by (simp add: run_simps stored_simps ref_Unmarshal_empty Atoi_10000)

subsection \<open>Stored records and the tax\<close>

lemma stored_put:
  "reversible J \<Longrightarrow>
   stored J (st\<lparr>ledger := (ledger st)(k \<mapsto> Marshal J p)\<rparr>) k' =
     (if k' = k then Some p else stored J st k')"
  by (simp add: stored_def reversible_def)

lemma stored_GetState:
  assumes "stored J st k = Some p" and "GetState st k = Inr b"
  shows "b \<noteq> None \<and> Unmarshal J (slice b) = Inr p"
  using assms
  by (auto simp: stored_def GetState_Inr slice_def split: option.splits sum.splits)

lemma stored_fetch:
  assumes "stored J st k = Some p" and "get_fault st k = None"
  shows "\<exists>b. GetState st k = Inr (Some b) \<and> Unmarshal J b = Inr p"
  using assms
  by (auto simp: stored_def GetState_def split: option.splits sum.splits)

lemma sint_double:
  "- (2 ^ 62) \<le> sint (a :: go_int) \<Longrightarrow> sint a < 2 ^ 62 \<Longrightarrow> sint (a * 2) = sint a * 2"
  by (simp add: sint_word_ariths signed_take_bit_int_eq_self)

lemma sint_word_of_int_in_range:
  "- (2 ^ 63) \<le> k \<Longrightarrow> k < 2 ^ 63 \<Longrightarrow> sint (word_of_int k :: go_int) = k"
  by (simp add: sint_sbintrunc' signed_take_bit_int_eq_self)

lemma sdiv_100_nonneg: "0 \<le> (x :: int) \<Longrightarrow> x sdiv 100 = x div 100"
  by (simp add: signed_divide_int_def sgn_if)

lemma sdiv_100_neg: "(x :: int) < 0 \<Longrightarrow> x sdiv 100 = - ((- x) div 100)"
  by (simp add: signed_divide_int_def sgn_if)

lemma div_100_bounds: "0 \<le> (x :: int) \<Longrightarrow> 0 \<le> x div 100 \<and> x div 100 \<le> x"
  using zdiv_mono2 [of x 1 100] by (simp add: pos_imp_zdiv_nonneg_iff)

lemma sdiv_100_bounds:
  assumes "- (2 ^ 63) \<le> (x :: int)" and "x < 2 ^ 63"
  shows "- (2 ^ 63) \<le> x sdiv 100 \<and> x sdiv 100 < 2 ^ 63"
proof (cases "0 \<le> x")
  case True
  with assms div_100_bounds [of x] show ?thesis by (simp add: sdiv_100_nonneg)
next
  case False
  with assms div_100_bounds [of "- x"] show ?thesis by (simp add: sdiv_100_neg)
qed

lemma go_quo_tax:
  assumes "- (2 ^ 62) \<le> sint (a :: go_int)" and "sint a < 2 ^ 62"
  shows "sint (go_quo (a * 2) 100) = (sint a * 2) sdiv 100"
proof -
  have two: "sint (a * 2) = sint a * 2"
    using assms by (rule sint_double)
  have "- (2 ^ 63) \<le> sint a * 2" and "sint a * 2 < 2 ^ 63"
    using assms by simp_all
  then have "- (2 ^ 63) \<le> (sint a * 2) sdiv 100 \<and> (sint a * 2) sdiv 100 < 2 ^ 63"
    by (rule sdiv_100_bounds)
  then show ?thesis
    by (simp add: go_quo_def two sint_word_of_int_in_range)
qed

lemma go_quo_floor:
  assumes "0 \<le> sint (a :: go_int)" and "sint a < 2 ^ 62"
  shows "sint (go_quo (a * 2) 100) = (sint a * 2) div 100"
  using assms go_quo_tax [of a] by (simp add: sdiv_100_nonneg)

lemma go_quo_truncates:
  assumes "sint (a :: go_int) < 0" and "- (2 ^ 62) \<le> sint a"
  shows "sint (go_quo (a * 2) 100) = - ((- (sint a * 2)) div 100)"
  using assms go_quo_tax [of a] by (simp add: sdiv_100_neg)

lemma transferPoints_taxed_Success:
  assumes run: "transferPoints J st (s # r # t # rest) = (Success pl, st')"
    and sp: "stored J st s = Some sp" and rp: "stored J st r = Some rp"
    and tp: "stored J st ''TaxAuth'' = Some tp"
    and taxed: "Category rp \<noteq> ''TaxExempt''"
  shows "pl = None \<and> st' = st\<lparr>ledger := (ledger st)
       (''TaxAuth'' \<mapsto> Marshal J (tp\<lparr>Balance := Balance tp + go_quo (fst (Atoi t) * 2) 100\<rparr>),
        s \<mapsto> Marshal J (sp\<lparr>Balance := Balance sp - fst (Atoi t)\<rparr>),
        r \<mapsto> Marshal J (rp\<lparr>Balance := Balance rp + (fst (Atoi t) - go_quo (fst (Atoi t) * 2) 100)\<rparr>))\<rparr>"
proof -
  from transferPoints_SuccessD [OF run]
  obtain sb rb tb tp' sp' rp' where f:
    "GetState st s = Inr (Some sb)" "GetState st r = Inr rb" "GetState st ''TaxAuth'' = Inr tb"
    "Unmarshal J (slice tb) = Inr tp'" "Unmarshal J sb = Inr sp'" "Unmarshal J (slice rb) = Inr rp'"
    and c: "Category sp' \<noteq> ''TaxAuth''" "Category rp' \<noteq> ''TaxAuth''"
    "\<not> go_less (Balance sp') (fst (Atoi t))"
    and p: "put_fault st s = None" "put_fault st r = None"
    "Category rp' \<noteq> ''TaxExempt'' \<longrightarrow> put_fault st ''TaxAuth'' = None"
    by blast
  from stored_GetState [OF sp f(1)] f(5) have "sp' = sp" by (simp add: slice_def)
  moreover from stored_GetState [OF rp f(2)] f(6) have "rp' = rp" by simp
  moreover from stored_GetState [OF tp f(3)] f(4) have "tp' = tp" by simp
  ultimately have f': "Unmarshal J (slice tb) = Inr tp" "Unmarshal J sb = Inr sp"
    "Unmarshal J (slice rb) = Inr rp"
    and c': "Category sp \<noteq> ''TaxAuth''" "Category rp \<noteq> ''TaxAuth''"
    "\<not> go_less (Balance sp) (fst (Atoi t))"
    and p3: "put_fault st ''TaxAuth'' = None"
    using f c p taxed by simp_all
  from transferPoints_taxed_path [OF f(1,2,3) f' c' taxed p3 p(1,2), of rest] run
  show ?thesis by simp
qed

lemma stored_after_taxed:
  assumes "reversible J"
  shows "stored J (st\<lparr>ledger := (ledger st)(''TaxAuth'' \<mapsto> Marshal J tp', s \<mapsto> Marshal J sp',
            r \<mapsto> Marshal J rp')\<rparr>) k =
     (if k = r then Some rp' else if k = s then Some sp'
      else if k = ''TaxAuth'' then Some tp' else stored J st k)"
  using assms by (simp add: stored_def reversible_def)

lemma Atoi_100: "Atoi ''100'' = (100, None)"
  by (simp add: Atoi_def ParseInt_def ParseUint_def is_digit_def digit_val_def maxUint64_def)

lemma Atoi_minus_51: "Atoi ''-51'' = (- 51, None)"
  by (simp add: Atoi_def ParseInt_def ParseUint_def is_digit_def digit_val_def maxUint64_def)

lemma Atoi_2_62: "Atoi ''4611686018427387904'' = (4611686018427387904, None)"
  by (simp add: Atoi_def ParseInt_def ParseUint_def is_digit_def digit_val_def maxUint64_def)

lemma go_quo_200: "go_quo 200 100 = 2"
  by (simp add: go_quo_def signed_divide_int_def)

lemma go_quo_minus_102: "go_quo (- 102) 100 = - 1"
  by (simp add: go_quo_def signed_divide_int_def)

lemma go_quo_wrapped: "go_quo 9223372036854775808 100 = - 92233720368547758"
  by (simp add: go_quo_def signed_divide_int_def)


subsection \<open>The taxed transfer\<close>

text \<open>
  Claim C1, as amended. For every successful \<open>transferPoints(sender, receiver, amountText)\<close>
  in which \<open>amountText\<close> parses to \<open>amount\<close>, sender, receiver and the reserved key
  \<open>"TaxAuth"\<close> are three different keys holding records, and the receiver's stored category
  is not \<open>"TaxExempt"\<close>: with \<open>tax = (amount * 2) / 100\<close> in Go's \<open>int\<close> arithmetic (which
  is \<open>floor(amount * 2 / 100)\<close> when \<open>0 \<le> amount < 2^62\<close>), the sender's stored balance
  decreases by \<open>amount\<close>, the receiver's increases by \<open>amount - tax\<close>, the tax authority's
  increases by \<open>tax\<close>, and the sum of the three balances is unchanged. Additions and
  subtractions are those of Go's \<open>int\<close>.
\<close>

theorem taxed_transfer_balances:
  assumes "transferPoints J st (sender # receiver # amountText # rest) = (Success pl, st')"
    and "Atoi amountText = (amount, None)"
    and "stored J st sender = Some sp" and "stored J st receiver = Some rp"
    and "stored J st ''TaxAuth'' = Some tp"
    and "sender \<noteq> receiver" and "sender \<noteq> ''TaxAuth''" and "receiver \<noteq> ''TaxAuth''"
    and "Category rp \<noteq> ''TaxExempt''"
    and "reversible J"
  shows "(let tax = go_quo (amount * 2) 100 in
     (0 \<le> sint amount \<and> sint amount < 2 ^ 62 \<longrightarrow> sint tax = (sint amount * 2) div 100) \<and>
     stored J st' sender = Some (sp\<lparr>Balance := Balance sp - amount\<rparr>) \<and>
     stored J st' receiver = Some (rp\<lparr>Balance := Balance rp + (amount - tax)\<rparr>) \<and>
     stored J st' ''TaxAuth'' = Some (tp\<lparr>Balance := Balance tp + tax\<rparr>) \<and>
     (Balance sp - amount) + (Balance rp + (amount - tax)) + (Balance tp + tax) =
       Balance sp + Balance rp + Balance tp)"
proof -
  from assms(2) have a: "fst (Atoi amountText) = amount" by simp
  from transferPoints_taxed_Success [OF assms(1,3,4,5,9)] a
  have st': "st' = st\<lparr>ledger := (ledger st)
       (''TaxAuth'' \<mapsto> Marshal J (tp\<lparr>Balance := Balance tp + go_quo (amount * 2) 100\<rparr>),
        sender \<mapsto> Marshal J (sp\<lparr>Balance := Balance sp - amount\<rparr>),
        receiver \<mapsto> Marshal J (rp\<lparr>Balance := Balance rp + (amount - go_quo (amount * 2) 100)\<rparr>))\<rparr>"
    by simp
  have "0 \<le> sint amount \<and> sint amount < 2 ^ 62 \<longrightarrow>
      sint (go_quo (amount * 2) 100) = (sint amount * 2) div 100"
    by (simp add: go_quo_floor)
  moreover have "stored J st' sender = Some (sp\<lparr>Balance := Balance sp - amount\<rparr>)"
    unfolding st' using assms(6) by (simp add: stored_after_taxed [OF assms(10)])
  moreover have "stored J st' receiver =
      Some (rp\<lparr>Balance := Balance rp + (amount - go_quo (amount * 2) 100)\<rparr>)"
    unfolding st' by (simp add: stored_after_taxed [OF assms(10)])
  moreover have "stored J st' ''TaxAuth'' =
      Some (tp\<lparr>Balance := Balance tp + go_quo (amount * 2) 100\<rparr>)"
    unfolding st' using assms(7,8) by (simp add: stored_after_taxed [OF assms(10)])
  ultimately show ?thesis by (simp add: Let_def)
qed

theorem taxed_transfer_balances_witness:
  "fst (transferPoints ref_codec three_parties [''Alice'', ''Bob'', ''100'']) = Success None \<and>
   Atoi ''100'' = (100, None) \<and>
   stored ref_codec three_parties ''Alice'' = Some (new_participant ''Alice'' ''normal'' 500) \<and>
   stored ref_codec three_parties ''Bob'' = Some (new_participant ''Bob'' ''normal'' 0) \<and>
   stored ref_codec three_parties ''TaxAuth'' = Some (new_participant ''TaxAuth'' ''taxauth'' 0) \<and>
   stored ref_codec (snd (transferPoints ref_codec three_parties [''Alice'', ''Bob'', ''100'']))
     ''Alice'' = Some (new_participant ''Alice'' ''normal'' 400) \<and>
   stored ref_codec (snd (transferPoints ref_codec three_parties [''Alice'', ''Bob'', ''100'']))
     ''Bob'' = Some (new_participant ''Bob'' ''normal'' 98) \<and>
   stored ref_codec (snd (transferPoints ref_codec three_parties [''Alice'', ''Bob'', ''100'']))
     ''TaxAuth'' = Some (new_participant ''TaxAuth'' ''taxauth'' 2)"
proof -
  let ?run = "transferPoints ref_codec three_parties [''Alice'', ''Bob'', ''100'']"
  have ok: "fst ?run = Success None"
    by (simp add: run_simps Atoi_100)
  then have run: "?run = (Success None, snd ?run)"
    by (simp add: prod_eq_iff)
  have s: "stored ref_codec three_parties ''Alice'' = Some (new_participant ''Alice'' ''normal'' 500)"
    and r: "stored ref_codec three_parties ''Bob'' = Some (new_participant ''Bob'' ''normal'' 0)"
    and t: "stored ref_codec three_parties ''TaxAuth'' = Some (new_participant ''TaxAuth'' ''taxauth'' 0)"
    by (simp_all add: stored_def three_parties_def holding_def ref_codec_def ref_Unmarshal_Marshal)
  have c: "Category (new_participant ''Bob'' ''normal'' 0) \<noteq> ''TaxExempt''"
    by (simp add: new_participant_def)
  from taxed_transfer_balances [OF run Atoi_100 s r t _ _ _ c reversible_ref_codec]
  show ?thesis using ok s r t
    by (simp add: Atoi_100 go_quo_200 new_participant_def Let_def)
qed

text \<open>
  Claim C1 as stated fails in three ways. A transfer of \<open>-51\<close> succeeds and moves the tax
  authority from 0 to \<open>-1\<close>, where \<open>floor(-102 / 100) = -2\<close>. A transfer of 100 sent from
  the key \<open>"TaxAuth"\<close> (whose stored category is \<open>"taxauth"\<close>, so nothing rejects it) leaves
  the tax authority at 400, not at 500 plus the tax. A transfer of \<open>2^62\<close> computes the tax
  from the wrapped product and gives the tax authority a negative amount.
\<close>

theorem taxed_transfer_balances_counterexample:
  "Atoi ''-51'' = (- 51, None) \<and>
   fst (transferPoints ref_codec three_parties [''Alice'', ''Bob'', ''-51'']) = Success None \<and>
   balance_of ref_codec three_parties ''TaxAuth'' = Some 0 \<and>
   balance_of ref_codec
     (snd (transferPoints ref_codec three_parties [''Alice'', ''Bob'', ''-51''])) ''TaxAuth''
     = Some (- 1) \<and>
   (- 51 * 2) div 100 = (- 2 :: int) \<and>
   fst (transferPoints ref_codec authority_and_bob [''TaxAuth'', ''Bob'', ''100'']) = Success None \<and>
   balance_of ref_codec authority_and_bob ''TaxAuth'' = Some 500 \<and>
   balance_of ref_codec
     (snd (transferPoints ref_codec authority_and_bob [''TaxAuth'', ''Bob'', ''100''])) ''TaxAuth''
     = Some 400 \<and>
   Atoi ''4611686018427387904'' = (4611686018427387904, None) \<and>
   fst (transferPoints ref_codec rich_alice [''Alice'', ''Bob'', ''4611686018427387904''])
     = Success None \<and>
   balance_of ref_codec
     (snd (transferPoints ref_codec rich_alice [''Alice'', ''Bob'', ''4611686018427387904'']))
     ''TaxAuth'' = Some (- 92233720368547758)"
  by (simp add: run_simps stored_simps authority_and_bob_def rich_alice_def
      Atoi_minus_51 Atoi_100 Atoi_2_62 go_quo_200 go_quo_minus_102 go_quo_wrapped)

subsection \<open>Transfers that succeed\<close>

lemma transferPoints_taxed_run:
  assumes sp: "stored J st s = Some sp" and rp: "stored J st r = Some rp"
    and tp: "stored J st ''TaxAuth'' = Some tp"
    and g: "get_fault st s = None" "get_fault st r = None" "get_fault st ''TaxAuth'' = None"
    and p: "put_fault st ''TaxAuth'' = None" "put_fault st s = None" "put_fault st r = None"
    and c: "Category sp \<noteq> ''TaxAuth''" "Category rp \<noteq> ''TaxAuth''"
      "\<not> go_less (Balance sp) (fst (Atoi t))" "Category rp \<noteq> ''TaxExempt''"
  shows "transferPoints J st (s # r # t # rest) =
    (Success None,
     st\<lparr>ledger := (ledger st)
       (''TaxAuth'' \<mapsto> Marshal J (tp\<lparr>Balance := Balance tp + go_quo (fst (Atoi t) * 2) 100\<rparr>),
        s \<mapsto> Marshal J (sp\<lparr>Balance := Balance sp - fst (Atoi t)\<rparr>),
        r \<mapsto> Marshal J (rp\<lparr>Balance := Balance rp + (fst (Atoi t) - go_quo (fst (Atoi t) * 2) 100)\<rparr>))\<rparr>)"
proof -
  from stored_fetch [OF sp g(1)] obtain sb where
    sb: "GetState st s = Inr (Some sb)" "Unmarshal J sb = Inr sp" by blast
  from stored_fetch [OF rp g(2)] obtain rb where
    rb: "GetState st r = Inr (Some rb)" "Unmarshal J (slice (Some rb)) = Inr rp"
    by (auto simp: slice_def)
  from stored_fetch [OF tp g(3)] obtain tb where
    tb: "GetState st ''TaxAuth'' = Inr (Some tb)" "Unmarshal J (slice (Some tb)) = Inr tp"
    by (auto simp: slice_def)
  show ?thesis
    by (rule transferPoints_taxed_path [OF sb(1) rb(1) tb(1) tb(2) sb(2) rb(2) c(1,2,3,4) p])
qed

lemma floor_below_truncation:
  assumes "(x :: int) < 0" and "\<not> 100 dvd x"
  shows "- ((- x) div 100) = x div 100 + 1"
proof -
  from assms(2) have "x mod 100 \<noteq> 0" by (simp add: dvd_eq_mod_eq_0)
  then show ?thesis by (simp add: zdiv_zminus1_eq_if)
qed

lemma three_parties_stored:
  "stored ref_codec three_parties ''Alice'' = Some (new_participant ''Alice'' ''normal'' 500)"
  "stored ref_codec three_parties ''Bob'' = Some (new_participant ''Bob'' ''normal'' 0)"
  "stored ref_codec three_parties ''TaxAuth'' = Some (new_participant ''TaxAuth'' ''taxauth'' 0)"
  by (simp_all add: stored_def three_parties_def holding_def ref_codec_def ref_Unmarshal_Marshal)

lemma three_parties_no_fault:
  "get_fault three_parties k = None" "put_fault three_parties k = None"
  by (simp_all add: three_parties_def holding_def)

lemma sint_minus_in_range:
  assumes "- (2 ^ 63) \<le> sint (a :: go_int) - sint b" and "sint a - sint b < 2 ^ 63"
  shows "sint (a - b) = sint a - sint b"
  using assms by (simp add: sint_word_ariths signed_take_bit_int_eq_self)

lemma sint_plus_in_range:
  assumes "- (2 ^ 63) \<le> sint (a :: go_int) + sint b" and "sint a + sint b < 2 ^ 63"
  shows "sint (a + b) = sint a + sint b"
  using assms by (simp add: sint_word_ariths signed_take_bit_int_eq_self)

lemma sender_gain_exact:
  assumes "sint (a :: go_int) < 0" and "sint b - sint a < 2 ^ 63"
  shows "sint (b + (- a)) = sint b - sint a"
proof -
  from assms(1) sint_ge [of b] have "- (2 ^ 63) \<le> sint b - sint a" by simp
  from sint_minus_in_range [OF this assms(2)] show ?thesis by simp
qed

lemma receiver_change_exact:
  assumes neg: "sint (a :: go_int) < 0" and lo: "- (2 ^ 62) \<le> sint a"
    and fits: "- (2 ^ 63) \<le> sint r + (sint a - sint (go_quo (a * 2) 100))"
  shows "sint (r + (a - go_quo (a * 2) 100)) = sint r + (sint a - sint (go_quo (a * 2) 100))"
proof -
  let ?q = "(- (sint a * 2)) div 100"
  have tax: "sint (go_quo (a * 2) 100) = - ?q"
    using neg lo by (rule go_quo_truncates)
  from neg have nn: "0 \<le> - (sint a * 2)" by simp
  from div_100_bounds [OF nn] have q0: "0 \<le> ?q" by simp
  from zdiv_mono2 [OF nn, of 2 100] have q1: "?q \<le> - sint a" by simp
  have d: "sint (a - go_quo (a * 2) 100) = sint a - sint (go_quo (a * 2) 100)"
    using neg lo q0 q1 tax by (intro sint_minus_in_range) simp_all
  have "sint r + sint (a - go_quo (a * 2) 100) < 2 ^ 63"
    using sint_lt [of r] neg q1 tax d by simp
  moreover have "- (2 ^ 63) \<le> sint r + sint (a - go_quo (a * 2) 100)"
    using fits d by simp
  ultimately have "sint (r + (a - go_quo (a * 2) 100)) = sint r + sint (a - go_quo (a * 2) 100)"
    by (intro sint_plus_in_range)
  with d show ?thesis by simp
qed

lemma Atoi_minus_1: "Atoi ''-1'' = (- 1, None)"
  by (simp add: Atoi_def ParseInt_def ParseUint_def is_digit_def digit_val_def maxUint64_def)

lemma Atoi_below_2_62:
  "Atoi ''-4611686018427387905'' = (- 4611686018427387905, None)"
  by (simp add: Atoi_def ParseInt_def ParseUint_def is_digit_def digit_val_def maxUint64_def)

lemma go_quo_minus_2: "go_quo (- 2) 100 = 0"
  by (simp add: go_quo_def signed_divide_int_def)

lemma go_quo_wrapped_negative: "go_quo (- 9223372036854775810) 100 = 92233720368547758"
  by (simp add: go_quo_def signed_divide_int_def)

text \<open>
  Claim C9, as amended. A self-transfer \<open>transferPoints(n, n, amountText)\<close> by a
  participant \<open>n\<close> other than the reserved key \<open>"TaxAuth"\<close>, with stored balance
  \<open>b \<ge> amount\<close>, a category that matches neither marker, a tax authority record, and a
  store that answers, succeeds: \<open>n\<close> ends with \<open>b + amount - tax\<close> (the credit is written
  over the debit), the tax authority gains \<open>tax\<close>, no other key changes, so the total of
  the stored balances grows by \<open>amount\<close>. Here \<open>tax = (amount * 2) / 100\<close> in Go's
  arithmetic.
\<close>

theorem self_transfer_gains:
  assumes "stored J st n = Some sp" and "stored J st ''TaxAuth'' = Some tp"
    and "n \<noteq> ''TaxAuth''"
    and "fst (Atoi amountText) = amount" and "\<not> go_less (Balance sp) amount"
    and "Category sp \<noteq> ''TaxAuth''" and "Category sp \<noteq> ''TaxExempt''"
    and "get_fault st n = None" and "get_fault st ''TaxAuth'' = None"
    and "put_fault st n = None" and "put_fault st ''TaxAuth'' = None"
    and "reversible J"
  shows "\<exists>st'. transferPoints J st (n # n # amountText # rest) = (Success None, st') \<and>
     (let tax = go_quo (amount * 2) 100 in
        stored J st' n = Some (sp\<lparr>Balance := Balance sp + amount - tax\<rparr>) \<and>
        stored J st' ''TaxAuth'' = Some (tp\<lparr>Balance := Balance tp + tax\<rparr>) \<and>
        (Balance sp + amount - tax) + (Balance tp + tax) = Balance sp + Balance tp + amount) \<and>
     (\<forall>k. k \<noteq> n \<and> k \<noteq> ''TaxAuth'' \<longrightarrow> ledger st' k = ledger st k)"
proof -
  let ?tax = "go_quo (amount * 2) 100"
  let ?st' = "st\<lparr>ledger := (ledger st)
       (''TaxAuth'' \<mapsto> Marshal J (tp\<lparr>Balance := Balance tp + ?tax\<rparr>),
        n \<mapsto> Marshal J (sp\<lparr>Balance := Balance sp - amount\<rparr>),
        n \<mapsto> Marshal J (sp\<lparr>Balance := Balance sp + (amount - ?tax)\<rparr>))\<rparr>"
  from assms(4,5) have enough: "\<not> go_less (Balance sp) (fst (Atoi amountText))" by simp
  have run: "transferPoints J st (n # n # amountText # rest) = (Success None, ?st')"
    using transferPoints_taxed_run [OF assms(1) assms(1) assms(2) assms(8) assms(8) assms(9)
        assms(11) assms(10) assms(10) assms(6) assms(6) enough assms(7), of rest] assms(4)
    by simp
  have "stored J ?st' n = Some (sp\<lparr>Balance := Balance sp + amount - ?tax\<rparr>)"
    using assms(12) by (simp add: stored_def reversible_def)
  moreover have "stored J ?st' ''TaxAuth'' = Some (tp\<lparr>Balance := Balance tp + ?tax\<rparr>)"
    using assms(12) assms(3) by (simp add: stored_def reversible_def)
  moreover have "\<forall>k. k \<noteq> n \<and> k \<noteq> ''TaxAuth'' \<longrightarrow> ledger ?st' k = ledger st k"
    by simp
  ultimately show ?thesis using run by (simp add: Let_def)
qed

theorem self_transfer_gains_witness:
  "stored ref_codec three_parties ''Alice'' = Some (new_participant ''Alice'' ''normal'' 500) \<and>
   stored ref_codec three_parties ''TaxAuth'' = Some (new_participant ''TaxAuth'' ''taxauth'' 0) \<and>
   fst (Atoi ''100'') = 100 \<and>
   \<not> go_less (Balance (new_participant ''Alice'' ''normal'' 500)) 100 \<and>
   (\<exists>st'. transferPoints ref_codec three_parties [''Alice'', ''Alice'', ''100''] = (Success None, st') \<and>
      stored ref_codec st' ''Alice'' = Some (new_participant ''Alice'' ''normal'' 598) \<and>
      stored ref_codec st' ''TaxAuth'' = Some (new_participant ''TaxAuth'' ''taxauth'' 2) \<and>
      ledger st' ''Bob'' = ledger three_parties ''Bob'')"
proof -
  have a: "fst (Atoi ''100'') = 100" by (simp add: Atoi_100)
  have b: "\<not> go_less (Balance (new_participant ''Alice'' ''normal'' 500)) 100"
    by (simp add: go_less_def new_participant_def)
  have c: "Category (new_participant ''Alice'' ''normal'' 500) \<noteq> ''TaxAuth''"
    "Category (new_participant ''Alice'' ''normal'' 500) \<noteq> ''TaxExempt''"
    by (simp_all add: new_participant_def)
  have d: "''Alice'' \<noteq> ''TaxAuth''" by simp
  from self_transfer_gains [OF three_parties_stored(1) three_parties_stored(3) d a b c
      three_parties_no_fault(1) three_parties_no_fault(1) three_parties_no_fault(2)
      three_parties_no_fault(2) reversible_ref_codec, of "[]"]
  obtain st' where run:
      "transferPoints ref_codec three_parties [''Alice'', ''Alice'', ''100''] = (Success None, st')"
    and bal: "(let tax = go_quo (100 * 2) 100 in
        stored ref_codec st' ''Alice'' = Some ((new_participant ''Alice'' ''normal'' 500)
          \<lparr>Balance := Balance (new_participant ''Alice'' ''normal'' 500) + 100 - tax\<rparr>) \<and>
        stored ref_codec st' ''TaxAuth'' = Some ((new_participant ''TaxAuth'' ''taxauth'' 0)
          \<lparr>Balance := Balance (new_participant ''TaxAuth'' ''taxauth'' 0) + tax\<rparr>) \<and>
        (Balance (new_participant ''Alice'' ''normal'' 500) + 100 - tax) +
          (Balance (new_participant ''TaxAuth'' ''taxauth'' 0) + tax) =
        Balance (new_participant ''Alice'' ''normal'' 500) +
          Balance (new_participant ''TaxAuth'' ''taxauth'' 0) + 100)"
    and others: "\<forall>k. k \<noteq> ''Alice'' \<and> k \<noteq> ''TaxAuth'' \<longrightarrow> ledger st' k = ledger three_parties k"
    by blast
  from bal have
    "stored ref_codec st' ''Alice'' = Some (new_participant ''Alice'' ''normal'' 598)"
    "stored ref_codec st' ''TaxAuth'' = Some (new_participant ''TaxAuth'' ''taxauth'' 2)"
    by (simp_all add: Let_def go_quo_200 new_participant_def)
  moreover from others have "ledger st' ''Bob'' = ledger three_parties ''Bob''"
    by simp
  ultimately show ?thesis using run a b three_parties_stored by blast
qed

text \<open>
  Claim C9 as stated fails for \<open>n = "TaxAuth"\<close>: the record created under that key has the
  category \<open>"taxauth"\<close>, which matches no marker. Its self-transfer of 100 from 500 ends
  at 598; the tax authority has gained 98 and not the tax of 2, and the total has grown by
  98, not by 100.
\<close>

theorem self_transfer_gains_counterexample:
  "stored ref_codec authority_and_bob ''TaxAuth'' = Some (new_participant ''TaxAuth'' ''taxauth'' 500) \<and>
   \<not> go_less 500 (fst (Atoi ''100'')) \<and>
   fst (transferPoints ref_codec authority_and_bob [''TaxAuth'', ''TaxAuth'', ''100'']) = Success None \<and>
   go_quo (fst (Atoi ''100'') * 2) 100 = 2 \<and>
   balance_of ref_codec authority_and_bob ''TaxAuth'' = Some 500 \<and>
   balance_of ref_codec
     (snd (transferPoints ref_codec authority_and_bob [''TaxAuth'', ''TaxAuth'', ''100'']))
     ''TaxAuth'' = Some 598 \<and>
   ledger (snd (transferPoints ref_codec authority_and_bob [''TaxAuth'', ''TaxAuth'', ''100'']))
     ''Bob'' = ledger authority_and_bob ''Bob''"
  by (simp add: run_simps stored_simps authority_and_bob_def Atoi_100 go_quo_200)

text \<open>
  Claim C10, as amended. For distinct sender and receiver, a negative amount \<open>a\<close> with
  \<open>sender.balance \<ge> a\<close> is transferred like any other (records present, categories
  matching no marker, store answering): the call succeeds, the sender's stored balance
  becomes \<open>balance + (-a)\<close> and the receiver's \<open>balance + (a - tax)\<close> in Go's 64-bit
  arithmetic, where \<open>tax = (a * 2) / 100\<close>. As integers the sender's balance grows by
  \<open>-a\<close> whenever \<open>balance - a\<close> is at most the largest \<open>int\<close> (beyond it the sum wraps
  around). For \<open>a \<ge> -2^62\<close>, where the product does not wrap, the tax is \<open>2a / 100\<close>
  truncated towards zero, which is one above the floor whenever 100 does not divide \<open>2a\<close>,
  and the receiver's balance changes by \<open>a - tax\<close> as integers whenever the result is at
  least the smallest \<open>int\<close>.
\<close>

theorem negative_amount_transfer:
  assumes "Atoi amountText = (amount, None)" and "sint amount < 0"
    and "stored J st sender = Some sp" and "stored J st receiver = Some rp"
    and "stored J st ''TaxAuth'' = Some tp"
    and "sender \<noteq> receiver"
    and "\<not> go_less (Balance sp) amount"
    and "Category sp \<noteq> ''TaxAuth''" and "Category rp \<noteq> ''TaxAuth''"
    and "Category rp \<noteq> ''TaxExempt''"
    and "get_fault st sender = None" and "get_fault st receiver = None"
    and "get_fault st ''TaxAuth'' = None"
    and "put_fault st sender = None" and "put_fault st receiver = None"
    and "put_fault st ''TaxAuth'' = None"
    and "reversible J"
  shows "\<exists>st'. transferPoints J st (sender # receiver # amountText # rest) = (Success None, st') \<and>
     (let tax = go_quo (amount * 2) 100 in
        stored J st' sender = Some (sp\<lparr>Balance := Balance sp + (- amount)\<rparr>) \<and>
        stored J st' receiver = Some (rp\<lparr>Balance := Balance rp + (amount - tax)\<rparr>) \<and>
        (sint (Balance sp) - sint amount < 2 ^ 63 \<longrightarrow>
           sint (Balance sp + (- amount)) = sint (Balance sp) - sint amount) \<and>
        (- (2 ^ 62) \<le> sint amount \<longrightarrow>
           sint tax = - ((- (sint amount * 2)) div 100) \<and>
           (\<not> 50 dvd sint amount \<longrightarrow> sint tax = (sint amount * 2) div 100 + 1) \<and>
           (- (2 ^ 63) \<le> sint (Balance rp) + (sint amount - sint tax) \<longrightarrow>
              sint (Balance rp + (amount - tax)) =
              sint (Balance rp) + (sint amount - sint tax))))"
proof -
  let ?tax = "go_quo (amount * 2) 100"
  let ?st' = "st\<lparr>ledger := (ledger st)
       (''TaxAuth'' \<mapsto> Marshal J (tp\<lparr>Balance := Balance tp + ?tax\<rparr>),
        sender \<mapsto> Marshal J (sp\<lparr>Balance := Balance sp - amount\<rparr>),
        receiver \<mapsto> Marshal J (rp\<lparr>Balance := Balance rp + (amount - ?tax)\<rparr>))\<rparr>"
  from assms(1) have a: "fst (Atoi amountText) = amount" by simp
  with assms(7) have enough: "\<not> go_less (Balance sp) (fst (Atoi amountText))" by simp
  have run: "transferPoints J st (sender # receiver # amountText # rest) = (Success None, ?st')"
    using transferPoints_taxed_run [OF assms(3,4,5) assms(11,12,13) assms(16) assms(14,15)
        assms(8,9) enough assms(10), of rest] a
    by simp
  have s1: "stored J ?st' sender = Some (sp\<lparr>Balance := Balance sp + (- amount)\<rparr>)"
    using assms(17) assms(6) by (simp add: stored_def reversible_def)
  have s2: "stored J ?st' receiver = Some (rp\<lparr>Balance := Balance rp + (amount - ?tax)\<rparr>)"
    using assms(17) by (simp add: stored_def reversible_def)
  have g: "sint (Balance sp) - sint amount < 2 ^ 63 \<longrightarrow>
           sint (Balance sp + (- amount)) = sint (Balance sp) - sint amount"
    using sender_gain_exact [OF assms(2)] by blast
  have t1: "- (2 ^ 62) \<le> sint amount \<longrightarrow>
           sint ?tax = - ((- (sint amount * 2)) div 100) \<and>
           (\<not> 50 dvd sint amount \<longrightarrow> sint ?tax = (sint amount * 2) div 100 + 1) \<and>
           (- (2 ^ 63) \<le> sint (Balance rp) + (sint amount - sint ?tax) \<longrightarrow>
              sint (Balance rp + (amount - ?tax)) =
              sint (Balance rp) + (sint amount - sint ?tax))"
  proof (intro impI conjI)
    assume lo: "- (2 ^ 62) \<le> sint amount"
    from go_quo_truncates [OF assms(2) lo]
    show t: "sint ?tax = - ((- (sint amount * 2)) div 100)" .
    {
      assume "\<not> 50 dvd sint amount"
      then have "\<not> 100 dvd sint amount * 2" by presburger
      moreover from assms(2) have "sint amount * 2 < 0" by simp
      ultimately have "- ((- (sint amount * 2)) div 100) = (sint amount * 2) div 100 + 1"
        by (rule floor_below_truncation [of "sint amount * 2", rotated])
      with t show "sint ?tax = (sint amount * 2) div 100 + 1"
        by (rule trans)
    }
    {
      assume "- (2 ^ 63) \<le> sint (Balance rp) + (sint amount - sint ?tax)"
      with assms(2) lo show "sint (Balance rp + (amount - ?tax)) =
              sint (Balance rp) + (sint amount - sint ?tax)"
        by (rule receiver_change_exact)
    }
  qed
  show ?thesis unfolding Let_def
    using run s1 s2 g t1 by blast
qed

theorem negative_amount_transfer_witness:
  "Atoi ''-51'' = (- 51, None) \<and> sint (- 51 :: go_int) < 0 \<and>
   stored ref_codec three_parties ''Alice'' = Some (new_participant ''Alice'' ''normal'' 500) \<and>
   stored ref_codec three_parties ''Bob'' = Some (new_participant ''Bob'' ''normal'' 0) \<and>
   \<not> go_less (Balance (new_participant ''Alice'' ''normal'' 500)) (- 51) \<and>
   (\<exists>st'. transferPoints ref_codec three_parties [''Alice'', ''Bob'', ''-51''] = (Success None, st') \<and>
      stored ref_codec st' ''Alice'' = Some (new_participant ''Alice'' ''normal'' 551) \<and>
      stored ref_codec st' ''Bob'' = Some (new_participant ''Bob'' ''normal'' (- 50))) \<and>
   sint (go_quo (- 51 * 2) 100) = - 1 \<and> (sint (- 51 :: go_int) * 2) div 100 = - 2 \<and>
   sint (551 :: go_int) = sint (500 :: go_int) - sint (- 51 :: go_int) \<and>
   sint (- 50 :: go_int) = sint (0 :: go_int) + (sint (- 51 :: go_int) - sint (- 1 :: go_int))"
proof -
  have neg: "sint (- 51 :: go_int) < 0" by simp
  have b: "\<not> go_less (Balance (new_participant ''Alice'' ''normal'' 500)) (- 51)"
    by (simp add: go_less_def new_participant_def)
  have c: "Category (new_participant ''Alice'' ''normal'' 500) \<noteq> ''TaxAuth''"
    "Category (new_participant ''Bob'' ''normal'' 0) \<noteq> ''TaxAuth''"
    "Category (new_participant ''Bob'' ''normal'' 0) \<noteq> ''TaxExempt''"
    by (simp_all add: new_participant_def)
  have d: "''Alice'' \<noteq> ''Bob''" by simp
  note run = negative_amount_transfer [OF Atoi_minus_51 neg three_parties_stored d b c
      three_parties_no_fault(1) three_parties_no_fault(1) three_parties_no_fault(1)
      three_parties_no_fault(2) three_parties_no_fault(2) three_parties_no_fault(2)
      reversible_ref_codec, of "[]"]
  have "\<exists>st'. transferPoints ref_codec three_parties [''Alice'', ''Bob'', ''-51''] = (Success None, st') \<and>
      stored ref_codec st' ''Alice'' = Some (new_participant ''Alice'' ''normal'' 551) \<and>
      stored ref_codec st' ''Bob'' = Some (new_participant ''Bob'' ''normal'' (- 50))"
    using run by (clarsimp simp: Let_def go_quo_minus_102 new_participant_def)
  moreover have "sint (go_quo (- 51 * 2) 100) = - 1" "(sint (- 51 :: go_int) * 2) div 100 = - 2"
    "sint (551 :: go_int) = sint (500 :: go_int) - sint (- 51 :: go_int)"
    "sint (- 50 :: go_int) = sint (0 :: go_int) + (sint (- 51 :: go_int) - sint (- 1 :: go_int))"
    by (simp_all add: go_quo_minus_102)
  ultimately show ?thesis using neg b three_parties_stored(1,2) Atoi_minus_51 by blast
qed

text \<open>
  Claim C10 as stated fails in three ways. When sender and receiver are the same key, Alice
  sending \<open>-51\<close> to herself from 500 ends at 450 (the receiver's record is written last),
  so her stored balance has not grown by 51. When the sender holds the largest \<open>int\<close>, a
  transfer of \<open>-1\<close> wraps her balance to the smallest. And for \<open>a = -2^62 - 1\<close> the product
  \<open>a * 2\<close> wraps, and the tax authority is credited a positive tax.
\<close>

theorem negative_amount_transfer_counterexample:
  "Atoi ''-51'' = (- 51, None) \<and>
   \<not> go_less 500 (- 51) \<and>
   fst (transferPoints ref_codec three_parties [''Alice'', ''Alice'', ''-51'']) = Success None \<and>
   balance_of ref_codec three_parties ''Alice'' = Some 500 \<and>
   balance_of ref_codec
     (snd (transferPoints ref_codec three_parties [''Alice'', ''Alice'', ''-51''])) ''Alice''
     = Some 450 \<and>
   Atoi ''-1'' = (- 1, None) \<and>
   \<not> go_less 9223372036854775807 (- 1) \<and>
   fst (transferPoints ref_codec rich_alice [''Alice'', ''Bob'', ''-1'']) = Success None \<and>
   balance_of ref_codec rich_alice ''Alice'' = Some 9223372036854775807 \<and>
   balance_of ref_codec
     (snd (transferPoints ref_codec rich_alice [''Alice'', ''Bob'', ''-1''])) ''Alice''
     = Some (- 9223372036854775808) \<and>
   sint (- 9223372036854775808 :: go_int) = - 9223372036854775808 \<and>
   Atoi ''-4611686018427387905'' = (- 4611686018427387905, None) \<and>
   \<not> go_less 500 (- 4611686018427387905) \<and>
   fst (transferPoints ref_codec three_parties [''Alice'', ''Bob'', ''-4611686018427387905''])
     = Success None \<and>
   balance_of ref_codec three_parties ''TaxAuth'' = Some 0 \<and>
   balance_of ref_codec
     (snd (transferPoints ref_codec three_parties [''Alice'', ''Bob'', ''-4611686018427387905'']))
     ''TaxAuth'' = Some 92233720368547758"
  by (simp add: run_simps stored_simps rich_alice_def Atoi_minus_51 Atoi_minus_1 Atoi_below_2_62
      go_quo_minus_102 go_quo_minus_2 go_quo_wrapped_negative)

subsection \<open>What a call can write\<close>

lemma initParty_Error_unchanged:
  "initParty J st args = (Error msg, st') \<Longrightarrow> st' = st"
  by (auto simp: initParty_def Let_def PutState_def
      split: if_splits sum.splits option.splits prod.splits)

lemma three_args: "length args = 3 \<Longrightarrow> \<exists>a b c. args = [a, b, c]"
  by (auto simp: numeral_3_eq_3 length_Suc_conv)

lemma initParty_Success_args:
  assumes "initParty J st args = (Success pl, st')"
  shows "\<exists>name category balanceText. args = [name, category, balanceText]"
proof (cases "length args = 3")
  case True
  then show ?thesis by (rule three_args)
next
  case False
  then have "initParty J st args =
      (Error ''Incorrect number of arguments. Expecting 3 (Name, Type, Balance)'', st)"
    by (simp add: initParty_def)
  with assms show ?thesis by simp
qed

lemma transferPoints_short:
  "length args < 3 \<Longrightarrow> transferPoints J st args =
     (Error ''Incorrect number of arguments. Expecting 3'', st)"
  by (simp add: transferPoints_def)

lemma long_args: "\<not> length args < 3 \<Longrightarrow> \<exists>s r t rest. args = s # r # t # rest"
  by (cases args; simp; rename_tac a as; case_tac as; simp; rename_tac b bs; case_tac bs; simp)

lemma transferPoints_exempt_puts:
  assumes "GetState st s = Inr (Some sb)" and "GetState st r = Inr rb"
    and "GetState st ''TaxAuth'' = Inr tb"
    and "Unmarshal J (slice tb) = Inr tp" and "Unmarshal J sb = Inr sp"
    and "Unmarshal J (slice rb) = Inr rp"
    and "Category sp \<noteq> ''TaxAuth''" and "Category rp \<noteq> ''TaxAuth''"
    and "\<not> go_less (Balance sp) (fst (Atoi t))"
    and "Category rp = ''TaxExempt''"
  shows "transferPoints J st (s # r # t # rest) =
    (case PutState st s (Marshal J (sp\<lparr>Balance := Balance sp - fst (Atoi t)\<rparr>)) of
       Inl e \<Rightarrow> (Error e, st)
     | Inr st2 \<Rightarrow>
         (case PutState st2 r (Marshal J (rp\<lparr>Balance := Balance rp + fst (Atoi t)\<rparr>)) of
            Inl e \<Rightarrow> (Error e, st2)
          | Inr st3 \<Rightarrow> (Success None, st3)))"
  using assms by (simp add: transferPoints_def slice_def Let_def)

lemma transferPoints_taxed_puts:
  assumes "GetState st s = Inr (Some sb)" and "GetState st r = Inr rb"
    and "GetState st ''TaxAuth'' = Inr tb"
    and "Unmarshal J (slice tb) = Inr tp" and "Unmarshal J sb = Inr sp"
    and "Unmarshal J (slice rb) = Inr rp"
    and "Category sp \<noteq> ''TaxAuth''" and "Category rp \<noteq> ''TaxAuth''"
    and "\<not> go_less (Balance sp) (fst (Atoi t))"
    and "Category rp \<noteq> ''TaxExempt''"
  shows "transferPoints J st (s # r # t # rest) =
    (case PutState st ''TaxAuth''
            (Marshal J (tp\<lparr>Balance := Balance tp + go_quo (fst (Atoi t) * 2) 100\<rparr>)) of
       Inl e \<Rightarrow> (Error e, st)
     | Inr st1 \<Rightarrow>
    (case PutState st1 s (Marshal J (sp\<lparr>Balance := Balance sp - fst (Atoi t)\<rparr>)) of
       Inl e \<Rightarrow> (Error e, st1)
     | Inr st2 \<Rightarrow>
         (case PutState st2 r (Marshal J (rp\<lparr>Balance := Balance rp +
                 (fst (Atoi t) - go_quo (fst (Atoi t) * 2) 100)\<rparr>)) of
            Inl e \<Rightarrow> (Error e, st2)
          | Inr st3 \<Rightarrow> (Success None, st3))))"
  using assms by (simp add: transferPoints_def slice_def Let_def)

lemma transferPoints_writes:
  assumes f: "GetState st s = Inr (Some sb)" "GetState st r = Inr rb"
    "GetState st ''TaxAuth'' = Inr tb"
    "Unmarshal J (slice tb) = Inr tp" "Unmarshal J sb = Inr sp"
    "Unmarshal J (slice rb) = Inr rp"
    and run: "transferPoints J st (s # r # t # rest) = (res, st')"
    and led: "ledger st' k = Some b'"
  shows "ledger st' k = ledger st k \<or>
     (k = s \<and> (\<exists>x. b' = Marshal J (sp\<lparr>Balance := x\<rparr>))) \<or>
     (k = r \<and> (\<exists>x. b' = Marshal J (rp\<lparr>Balance := x\<rparr>))) \<or>
     (k = ''TaxAuth'' \<and> (\<exists>x. b' = Marshal J (tp\<lparr>Balance := x\<rparr>)))"
proof (cases "Category sp = ''TaxAuth'' \<or> Category rp = ''TaxAuth''")
  case True
  from transferPoints_rejects(1) [OF f True] run have "st' = st" by simp
  then show ?thesis by simp
next
  case no_auth: False
  show ?thesis
  proof (cases "go_less (Balance sp) (fst (Atoi t))")
    case True
    from transferPoints_rejects(2) [OF f _ _ True] no_auth run have "st' = st" by simp
    then show ?thesis by simp
  next
    case enough: False
    from no_auth have c: "Category sp \<noteq> ''TaxAuth''" "Category rp \<noteq> ''TaxAuth''"
      by simp_all
    show ?thesis
    proof (cases "Category rp = ''TaxExempt''")
      case True
      from run led show ?thesis
        unfolding transferPoints_exempt_puts [OF f c enough True]
        by (auto simp: PutState_def split: option.splits if_splits)
    next
      case False
      from run led show ?thesis
        unfolding transferPoints_taxed_puts [OF f c enough False]
        by (auto simp: PutState_def split: option.splits if_splits)
    qed
  qed
qed

subsection \<open>Categories in reachable ledgers\<close>

lemma toLower_byte_not_upper: "\<not> is_upper (toLower_byte x)"
proof (cases "is_upper x")
  case True
  then have "(of_char (toLower_byte x) :: nat) = of_char x + 32"
    by (simp add: toLower_byte_def is_upper_def)
  with True show ?thesis by (simp add: is_upper_def)
next
  case False
  then show ?thesis by (simp add: toLower_byte_def)
qed

lemma lowers_ref_codec: "lowers ref_codec"
  by (auto simp: lowers_def ref_codec_def ascii_ToLower_def toLower_byte_not_upper)

lemma reversible_keeps_lowered: "reversible J \<Longrightarrow> keeps_lowered J"
  by (simp add: reversible_def keeps_lowered_def)

lemma keeps_lowered_ref_codec: "keeps_lowered ref_codec"
  by (rule reversible_keeps_lowered) (rule reversible_ref_codec)

lemma ToLower_not_marker:
  assumes "lowers J"
  shows "ToLower J c \<noteq> ''TaxAuth'' \<and> ToLower J c \<noteq> ''TaxExempt''"
proof -
  have up: "is_upper (CHR ''T'')" by (simp add: is_upper_def)
  have "CHR ''T'' \<in> set ''TaxAuth''" "CHR ''T'' \<in> set ''TaxExempt''" by simp_all
  with assms up show ?thesis unfolding lowers_def by metis
qed

lemma lowercase_ledger_created:
  assumes inv: "lowercase_ledger J st cats"
    and run: "initParty J st args = (Success pl, st')"
  shows "lowercase_ledger J st' (cats(args ! 0 \<mapsto> args ! 1))"
proof -
  from initParty_Success_args [OF run] obtain name category balanceText
    where args: "args = [name, category, balanceText]" by blast
  from initParty_SuccessD [OF run [unfolded args]]
  have st': "st' = st\<lparr>ledger := (ledger st)(name \<mapsto>
            Marshal J (new_participant name (ToLower J category) (fst (Atoi balanceText))))\<rparr>"
    by simp
  show ?thesis
    unfolding lowercase_ledger_def
  proof (intro allI impI)
    fix k b
    assume led: "ledger st' k = Some b"
    show "\<exists>p c. b = Marshal J p \<and> (cats(args ! 0 \<mapsto> args ! 1)) k = Some c \<and>
        Category p = ToLower J c"
    proof (cases "k = name")
      case True
      with led st' have "b = Marshal J (new_participant name (ToLower J category)
          (fst (Atoi balanceText)))" by simp
      moreover have "Category (new_participant name (ToLower J category)
          (fst (Atoi balanceText))) = ToLower J category"
        by (simp add: new_participant_def)
      ultimately show ?thesis using True args by auto
    next
      case False
      with led st' have "ledger st k = Some b" by simp
      with inv obtain p c where "b = Marshal J p" "cats k = Some c" "Category p = ToLower J c"
        unfolding lowercase_ledger_def by blast
      with False args show ?thesis by auto
    qed
  qed
qed

lemma lowercase_ledger_fetch:
  assumes inv: "lowercase_ledger J st cats" and keeps: "keeps_lowered J"
    and rej: "rejects_empty J"
    and get: "GetState st k = Inr b" and dec: "Unmarshal J (slice b) = Inr p"
  shows "\<exists>c. cats k = Some c \<and> Category p = ToLower J c"
proof (cases b)
  case None
  with dec rej show ?thesis by (auto simp: slice_def rejects_empty_def)
next
  case (Some v)
  with get have "ledger st k = Some v" by (simp add: GetState_Inr)
  with inv obtain q c where q: "v = Marshal J q" "cats k = Some c" "Category q = ToLower J c"
    unfolding lowercase_ledger_def by blast
  from keeps q(3) obtain q' where "Unmarshal J (Marshal J q) = Inr q'" "Category q' = Category q"
    unfolding keeps_lowered_def by blast
  with dec Some q(1) have "Category p = Category q" by (simp add: slice_def)
  with q show ?thesis by simp
qed

lemma lowercase_ledger_transferred:
  assumes inv: "lowercase_ledger J st cats" and keeps: "keeps_lowered J"
    and rej: "rejects_empty J"
    and run: "transferPoints J st args = (res, st')"
  shows "lowercase_ledger J st' cats"
proof (cases "length args < 3")
  case True
  with run inv show ?thesis by (simp add: transferPoints_short)
next
  case False
  then obtain s r t rest where args: "args = s # r # t # rest"
    using long_args by blast
  show ?thesis
  proof (cases "\<exists>sb rb tb tp sp rp. GetState st s = Inr (Some sb) \<and> GetState st r = Inr rb \<and>
      GetState st ''TaxAuth'' = Inr tb \<and> Unmarshal J (slice tb) = Inr tp \<and>
      Unmarshal J sb = Inr sp \<and> Unmarshal J (slice rb) = Inr rp")
    case False
    from transferPoints_fetch_fails [OF False, of t rest] run args
    have "st' = st" by auto
    with inv show ?thesis by simp
  next
    case True
    then obtain sb rb tb tp sp rp where f: "GetState st s = Inr (Some sb)"
      "GetState st r = Inr rb" "GetState st ''TaxAuth'' = Inr tb"
      "Unmarshal J (slice tb) = Inr tp" "Unmarshal J sb = Inr sp"
      "Unmarshal J (slice rb) = Inr rp"
      by blast
    from f(5) have sdec: "Unmarshal J (slice (Some sb)) = Inr sp" by (simp add: slice_def)
    from lowercase_ledger_fetch [OF inv keeps rej f(1) sdec]
    obtain cs where cs: "cats s = Some cs" "Category sp = ToLower J cs" by blast
    from lowercase_ledger_fetch [OF inv keeps rej f(2) f(6)]
    obtain cr where cr: "cats r = Some cr" "Category rp = ToLower J cr" by blast
    from lowercase_ledger_fetch [OF inv keeps rej f(3) f(4)]
    obtain ct where ct: "cats ''TaxAuth'' = Some ct" "Category tp = ToLower J ct" by blast
    show ?thesis
      unfolding lowercase_ledger_def
    proof (intro allI impI)
      fix k b'
      assume led: "ledger st' k = Some b'"
      from transferPoints_writes [OF f run [unfolded args] led]
      consider "ledger st' k = ledger st k"
        | x where "k = s" "b' = Marshal J (sp\<lparr>Balance := x\<rparr>)"
        | x where "k = r" "b' = Marshal J (rp\<lparr>Balance := x\<rparr>)"
        | x where "k = ''TaxAuth''" "b' = Marshal J (tp\<lparr>Balance := x\<rparr>)"
        by blast
      then show "\<exists>p c. b' = Marshal J p \<and> cats k = Some c \<and> Category p = ToLower J c"
      proof cases
        case 1
        with led inv show ?thesis unfolding lowercase_ledger_def by simp
      next
        case 2
        with cs show ?thesis by (intro exI [of _ "sp\<lparr>Balance := x\<rparr>"] exI [of _ cs]) simp
      next
        case 3
        with cr show ?thesis by (intro exI [of _ "rp\<lparr>Balance := x\<rparr>"] exI [of _ cr]) simp
      next
        case 4
        with ct show ?thesis by (intro exI [of _ "tp\<lparr>Balance := x\<rparr>"] exI [of _ ct]) simp
      qed
    qed
  qed
qed

lemma reachable_lowercase:
  assumes "reachable J st cats" and "keeps_lowered J" and "rejects_empty J"
  shows "lowercase_ledger J st cats"
  using assms
proof (induction rule: reachable.induct)
  case (start st)
  then show ?case by (simp add: lowercase_ledger_def)
next
  case (created st cats args pl st')
  from created.IH [OF created.prems] created.hyps(2) show ?case
    by (rule lowercase_ledger_created)
next
  case (refused st cats args msg st')
  from initParty_Error_unchanged [OF refused.hyps(2)] refused.IH [OF refused.prems]
  show ?case by simp
next
  case (transferred st cats args res st')
  from transferred.IH [OF transferred.prems] transferred.prems transferred.hyps(2)
  show ?case by (rule lowercase_ledger_transferred)
next
  case (faults st cats gf pf)
  from faults.IH [OF faults.prems] show ?case by (simp add: lowercase_ledger_def)
next
  case (interrupted st cats k q b)
  let ?st = "st\<lparr>get_fault := (\<lambda>k. None)\<rparr>"
  from interrupted.IH [OF interrupted.prems]
  have inv: "lowercase_ledger J st cats" .
  then have "lowercase_ledger J ?st cats" by (simp add: lowercase_ledger_def)
  moreover have "GetState ?st k = Inr (ledger st k)" by (simp add: GetState_def)
  ultimately obtain c where c: "cats k = Some c" "Category q = ToLower J c"
    using lowercase_ledger_fetch [OF _ interrupted.prems _ interrupted.hyps(2)] by blast
  then have "Category (q\<lparr>Balance := b\<rparr>) = ToLower J c" by simp
  with inv c(1) show ?case
    unfolding lowercase_ledger_def by (auto simp del: fun_upd_apply simp add: fun_upd_apply)
qed

lemma initParty_holding:
  assumes "name \<noteq> []" and "category \<noteq> []" and "Atoi balanceText = (b, None)"
    and "name \<notin> fst ` set kps"
  shows "initParty ref_codec (holding kps) [name, category, balanceText] =
    (Success None, holding ((name, new_participant name (ascii_ToLower category) b) # kps))"
proof -
  from assms(4) have "map_of (map (\<lambda>(k, p). (k, ref_Marshal p)) kps) name = None"
    by (force simp: map_of_eq_None_iff)
  then have get: "GetState (holding kps) name = Inr None"
    by (simp add: GetState_def holding_def)
  have put: "put_fault (holding kps) name = None"
    by (simp add: holding_def)
  show ?thesis
    unfolding initParty_succeeds [OF assms(1,2,3) get put]
    by (simp add: holding_def ref_codec_def)
qed

lemma ToLower_TaxAuth: "ascii_ToLower ''TaxAuth'' = ''taxauth''"
  by code_simp

lemma ToLower_TaxExempt: "ascii_ToLower ''TaxExempt'' = ''taxexempt''"
  by code_simp

lemma Atoi_10: "Atoi ''10'' = (10, None)"
  by (simp add: Atoi_def ParseInt_def ParseUint_def is_digit_def digit_val_def maxUint64_def)

lemma create_alice:
  "initParty ref_codec empty_stub [''Alice'', ''Normal'', ''500''] =
     (Success None, holding [(''Alice'', new_participant ''Alice'' ''normal'' 500)])"
proof -
  have "empty_stub = holding []" by (simp add: empty_stub_def holding_def)
  then show ?thesis
    using initParty_holding [of "''Alice''" "''Normal''" "''500''" 500 "[]"]
    by (simp add: Atoi_500 ToLower_Normal)
qed

lemma create_authority:
  "initParty ref_codec (holding [(''Alice'', new_participant ''Alice'' ''normal'' 500)])
     [''TaxAuth'', ''TaxAuth'', ''0''] = (Success None, alice_and_authority)"
  using initParty_holding [of "''TaxAuth''" "''TaxAuth''" "''0''" 0
      "[(''Alice'', new_participant ''Alice'' ''normal'' 500)]"]
  by (simp add: Atoi_0 ToLower_TaxAuth alice_and_authority_def)

lemma create_carol:
  "initParty ref_codec alice_and_authority [''Carol'', ''TaxExempt'', ''0''] =
     (Success None, created_three)"
  unfolding alice_and_authority_def created_three_def
  using initParty_holding [of "''Carol''" "''TaxExempt''" "''0''" 0
      "[(''TaxAuth'', new_participant ''TaxAuth'' ''taxauth'' 0),
        (''Alice'', new_participant ''Alice'' ''normal'' 500)]"]
  by (simp add: Atoi_0 ToLower_TaxExempt)

lemma reachable_created_three:
  "reachable ref_codec created_three
     [''Alice'' \<mapsto> ''Normal'', ''TaxAuth'' \<mapsto> ''TaxAuth'', ''Carol'' \<mapsto> ''TaxExempt'']"
proof -
  have "reachable ref_codec empty_stub Map.empty"
    by (rule reachable.start) (simp add: empty_stub_def)
  from reachable.created [OF this create_alice]
  have "reachable ref_codec (holding [(''Alice'', new_participant ''Alice'' ''normal'' 500)])
      [''Alice'' \<mapsto> ''Normal'']" by simp
  from reachable.created [OF this create_authority]
  have "reachable ref_codec alice_and_authority [''Alice'' \<mapsto> ''Normal'', ''TaxAuth'' \<mapsto> ''TaxAuth'']"
    by simp
  from reachable.created [OF this create_carol]
  show ?thesis by simp
qed

text \<open>
  Claim C4. In every ledger reachable from an empty one by \<open>initParty\<close> and
  \<open>transferPoints\<close>, every stored participant's category is the lowercase form of the
  category given at its creation, transfers included. So no stored category equals
  \<open>"TaxAuth"\<close> or \<open>"TaxExempt"\<close>, and for every sender and receiver that \<open>transferPoints\<close>
  can fetch and decode there, the two tests for the tax authority and the test for the
  tax-exempt receiver are false: the rejection and the untaxed credit are never reached.
  Of the library this uses that \<open>strings.ToLower\<close> returns no ASCII capital letter, that
  the codec keeps the categories \<open>strings.ToLower\<close> produces, and that it rejects empty
  input.
\<close>

theorem stored_categories_lowercase:
  assumes "reachable J st cats" and "lowers J" and "keeps_lowered J" and "rejects_empty J"
  shows "(\<forall>k. ledger st k \<noteq> None \<longrightarrow>
           (\<exists>p c. stored J st k = Some p \<and> cats k = Some c \<and> Category p = ToLower J c)) \<and>
         (\<forall>k p. stored J st k = Some p \<longrightarrow>
            Category p \<noteq> ''TaxAuth'' \<and> Category p \<noteq> ''TaxExempt'') \<and>
         (\<forall>s r sb rb sp rp.
            GetState st s = Inr (Some sb) \<and> Unmarshal J sb = Inr sp \<and>
            GetState st r = Inr rb \<and> Unmarshal J (slice rb) = Inr rp \<longrightarrow>
            Category sp \<noteq> ''TaxAuth'' \<and> Category rp \<noteq> ''TaxAuth'' \<and>
            Category rp \<noteq> ''TaxExempt'')"
proof (intro conjI allI impI)
  note inv = reachable_lowercase [OF assms(1,3,4)]
  {
    fix k
    assume "ledger st k \<noteq> None"
    then obtain b where b: "ledger st k = Some b" by auto
    with inv obtain p c where p: "b = Marshal J p" "cats k = Some c" "Category p = ToLower J c"
      unfolding lowercase_ledger_def by blast
    from assms(3) p(3) obtain q where "Unmarshal J (Marshal J p) = Inr q"
      "Category q = Category p"
      unfolding keeps_lowered_def by blast
    with b p have "stored J st k = Some q \<and> cats k = Some c \<and> Category q = ToLower J c"
      by (simp add: stored_def)
    then show "\<exists>p c. stored J st k = Some p \<and> cats k = Some c \<and> Category p = ToLower J c"
      by blast
  }
  note first = this
  {
    fix k p
    assume sp: "stored J st k = Some p"
    then have "ledger st k \<noteq> None" by (auto simp: stored_def split: option.splits)
    from first [OF this] sp obtain c where "Category p = ToLower J c" by auto
    with ToLower_not_marker [OF assms(2), of c]
    show "Category p \<noteq> ''TaxAuth''" and "Category p \<noteq> ''TaxExempt''" by simp_all
  }
  {
    fix s r sb rb sp rp
    assume a: "GetState st s = Inr (Some sb) \<and> Unmarshal J sb = Inr sp \<and>
            GetState st r = Inr rb \<and> Unmarshal J (slice rb) = Inr rp"
    then have sdec: "Unmarshal J (slice (Some sb)) = Inr sp" by (simp add: slice_def)
    from a lowercase_ledger_fetch [OF inv assms(3,4) _ sdec]
    obtain cs where "Category sp = ToLower J cs" by blast
    moreover from a lowercase_ledger_fetch [OF inv assms(3,4), of r rb rp]
    obtain cr where "Category rp = ToLower J cr" by blast
    ultimately show "Category sp \<noteq> ''TaxAuth''" and "Category rp \<noteq> ''TaxAuth''"
      and "Category rp \<noteq> ''TaxExempt''"
      using ToLower_not_marker [OF assms(2)] by simp_all
  }
qed

theorem stored_categories_lowercase_witness:
  "reachable ref_codec
     (snd (transferPoints ref_codec refusing_carol [''Alice'', ''Carol'', ''100'']))
     [''Alice'' \<mapsto> ''Normal'', ''TaxAuth'' \<mapsto> ''TaxAuth'', ''Carol'' \<mapsto> ''TaxExempt''] \<and>
   lowers ref_codec \<and> keeps_lowered ref_codec \<and> rejects_empty ref_codec \<and>
   fst (transferPoints ref_codec refusing_carol [''Alice'', ''Carol'', ''100''])
     = Error ''write refused'' \<and>
   stored ref_codec
     (snd (transferPoints ref_codec refusing_carol [''Alice'', ''Carol'', ''100''])) ''Alice''
     = Some (new_participant ''Alice'' ''normal'' 400) \<and>
   stored ref_codec
     (snd (transferPoints ref_codec refusing_carol [''Alice'', ''Carol'', ''100''])) ''Carol''
     = Some (new_participant ''Carol'' ''taxexempt'' 0) \<and>
   Category (new_participant ''Carol'' ''taxexempt'' 0) = ToLower ref_codec ''TaxExempt'' \<and>
   Category (new_participant ''Carol'' ''taxexempt'' 0) \<noteq> ''TaxAuth'' \<and>
   Category (new_participant ''Carol'' ''taxexempt'' 0) \<noteq> ''TaxExempt''"
proof -
  let ?run = "transferPoints ref_codec refusing_carol [''Alice'', ''Carol'', ''100'']"
  let ?cats = "[''Alice'' \<mapsto> ''Normal'', ''TaxAuth'' \<mapsto> ''TaxAuth'', ''Carol'' \<mapsto> ''TaxExempt'']"
  from reachable.faults [OF reachable_created_three]
  have "reachable ref_codec refusing_carol ?cats"
    unfolding refusing_carol_def .
  moreover have "?run = (fst ?run, snd ?run)" by simp
  ultimately have reach: "reachable ref_codec (snd ?run) ?cats"
    by (rule reachable.transferred)
  have refused: "fst ?run = Error ''write refused''"
    and alice: "stored ref_codec (snd ?run) ''Alice'' = Some (new_participant ''Alice'' ''normal'' 400)"
    and carol: "stored ref_codec (snd ?run) ''Carol'' = Some (new_participant ''Carol'' ''taxexempt'' 0)"
    by (simp_all add: run_simps stored_simps refusing_carol_def created_three_def
        Atoi_100 go_quo_200)
  from stored_categories_lowercase
    [OF reach lowers_ref_codec keeps_lowered_ref_codec rejects_empty_ref_codec]
  have "\<forall>k p. stored ref_codec (snd ?run) k = Some p \<longrightarrow>
      Category p \<noteq> ''TaxAuth'' \<and> Category p \<noteq> ''TaxExempt''"
    by blast
  with carol have "Category (new_participant ''Carol'' ''taxexempt'' 0) \<noteq> ''TaxAuth'' \<and>
      Category (new_participant ''Carol'' ''taxexempt'' 0) \<noteq> ''TaxExempt''"
    by blast
  moreover have "Category (new_participant ''Carol'' ''taxexempt'' 0) = ToLower ref_codec ''TaxExempt''"
    by (simp add: new_participant_def ref_codec_def ToLower_TaxExempt)
  ultimately show ?thesis
    using reach refused alice carol lowers_ref_codec keeps_lowered_ref_codec
      rejects_empty_ref_codec
    by blast
qed

subsection \<open>Where the code misses what it attempts\<close>

text \<open>
  Claim C2 (a transfer to a receiver created with the tax-exempt category credits the full
  amount and leaves the tax authority alone) does not hold on the code: \<open>initParty\<close> stores
  Carol's category as \<open>"taxexempt"\<close>, the test in \<open>transferPoints\<close> compares with
  \<open>"TaxExempt"\<close>, and the transfer of 100 from Alice credits Carol 98 and the tax authority 2.
\<close>

theorem exempt_receiver_is_taxed:
  "initParty ref_codec alice_and_authority [''Carol'', ''TaxExempt'', ''0''] =
     (Success None, created_three) \<and>
   stored ref_codec created_three ''Carol'' = Some (new_participant ''Carol'' ''taxexempt'' 0) \<and>
   balance_of ref_codec created_three ''TaxAuth'' = Some 0 \<and>
   fst (transferPoints ref_codec created_three [''Alice'', ''Carol'', ''100'']) = Success None \<and>
   balance_of ref_codec
     (snd (transferPoints ref_codec created_three [''Alice'', ''Carol'', ''100''])) ''Carol''
     = Some 98 \<and>
   balance_of ref_codec
     (snd (transferPoints ref_codec created_three [''Alice'', ''Carol'', ''100''])) ''TaxAuth''
     = Some 2 \<and>
   balance_of ref_codec
     (snd (transferPoints ref_codec created_three [''Alice'', ''Carol'', ''100''])) ''Alice''
     = Some 400"
  by (simp add: create_carol)
    (simp add: run_simps stored_simps created_three_def Atoi_100 go_quo_200)

text \<open>
  Claim C3 (a missing receiver, or a missing tax authority, yields its not-found failure)
  does not hold on the code: both tests look at \<open>senderAsBytes\<close> again, so the missing
  record's \<open>nil\<close> bytes reach \<open>json.Unmarshal\<close> and the call fails with the decoder's
  error. The ledger is unchanged, as the claim says.
\<close>

theorem missing_record_decode_error:
  "ledger three_parties ''Alice'' \<noteq> None \<and> ledger three_parties ''MissingUser'' = None \<and>
   transferPoints ref_codec three_parties [''Alice'', ''MissingUser'', ''10''] =
     (Error ''unexpected end of JSON input'', three_parties) \<and>
   ledger alice_and_bob ''Alice'' \<noteq> None \<and> ledger alice_and_bob ''Bob'' \<noteq> None \<and>
   ledger alice_and_bob ''TaxAuth'' = None \<and>
   transferPoints ref_codec alice_and_bob [''Alice'', ''Bob'', ''10''] =
     (Error ''unexpected end of JSON input'', alice_and_bob)"
  by (simp add: run_simps alice_and_bob_def ref_Unmarshal_empty Atoi_10)

end
